theory Spec2Isabelle
  imports Complex_Main "HOL-Library.AList" "HOL-Library.Multiset"
begin

section \<open>Strings and the chain normalizer\<close>

text \<open>
  Strings are \<^typ>\<open>string\<close> (lists of 8-bit characters). JavaScript's
  \<^verbatim>\<open>toUpperCase\<close> and \<^verbatim>\<open>toLowerCase\<close> follow Unicode. Where the library applies
  \<^verbatim>\<open>toUpperCase\<close> to data of the API (tickers, symbols, chain ids of pairs), the function
  is a parameter \<open>upper\<close> of the model, and what is proved holds for whatever the host
  computes. The two tables below are the ASCII part of the conversions: on ASCII text they
  map exactly the letters a-z and A-Z onto each other and leave every other character
  alone. They serve the chain normalizer, whose keys and slugs are ASCII, and the test of
  the three social types, and they are the instance of \<open>upper\<close> in the examples.
\<close>

definition lower_letters :: string where
  "lower_letters = ''abcdefghijklmnopqrstuvwxyz''"

definition upper_letters :: string where
  "upper_letters = ''ABCDEFGHIJKLMNOPQRSTUVWXYZ''"

definition upper_char :: "char \<Rightarrow> char" where
  "upper_char c = (case map_of (zip lower_letters upper_letters) c of None \<Rightarrow> c | Some u \<Rightarrow> u)"

definition lower_char :: "char \<Rightarrow> char" where
  "lower_char c = (case map_of (zip upper_letters lower_letters) c of None \<Rightarrow> c | Some l \<Rightarrow> l)"

definition toUpperCase :: "string \<Rightarrow> string" where
  "toUpperCase s = map upper_char s"

definition toLowerCase :: "string \<Rightarrow> string" where
  "toLowerCase s = map lower_char s"

text \<open>A string is truthy in JavaScript exactly when it is not empty.\<close>

definition truthy_str :: "string \<Rightarrow> bool" where
  "truthy_str s = (s \<noteq> [])"

definition DEXSCREENER_BASE :: string where
  "DEXSCREENER_BASE = ''https://api.dexscreener.com/latest''"

definition CHAIN_MAP :: "(string \<times> string) list" where
  "CHAIN_MAP =
     [(''SOL'', ''solana''),
      (''ETH'', ''ethereum''),
      (''BASE'', ''base''),
      (''ARB'', ''arbitrum''),
      (''BSC'', ''bsc''),
      (''AVAX'', ''avalanche''),
      (''MATIC'', ''polygon''),
      (''FTM'', ''fantom''),
      (''OP'', ''optimism'')]"

text \<open>\<^verbatim>\<open>CHAIN_MAP[chain.toUpperCase()] || chain.toLowerCase()\<close>\<close>

definition normalizeChain :: "string \<Rightarrow> string" where
  "normalizeChain chain =
     (case map_of CHAIN_MAP (toUpperCase chain) of
        Some slug \<Rightarrow> if truthy_str slug then slug else toLowerCase chain
      | None \<Rightarrow> toLowerCase chain)"

text \<open>
  \<^verbatim>\<open>encodeURIComponent\<close>: every byte that is not a letter, a digit or one of
  \<^verbatim>\<open>- _ . ! ~ * ' ( )\<close> is written as a percent sign and two upper-case hexadecimal digits.
\<close>

definition hex_digit :: "nat \<Rightarrow> char" where
  "hex_digit d = ''0123456789ABCDEF'' ! (d mod 16)"

definition uri_unreserved :: "char \<Rightarrow> bool" where
  "uri_unreserved c =
     (c \<in> set lower_letters \<or> c \<in> set upper_letters \<or> c \<in> set ''0123456789''
      \<or> c \<in> set ''-_.!~*'()'')"

definition encode_char :: "char \<Rightarrow> string" where
  "encode_char c =
     (if uri_unreserved c then [c]
      else (let n = (of_char c :: nat) in [CHR ''%'', hex_digit (n div 16), hex_digit (n mod 16)]))"

definition encodeURIComponent :: "string \<Rightarrow> string" where
  "encodeURIComponent s = concat (map encode_char s)"

section \<open>Data model\<close>

text \<open>
  A JavaScript number that the code guards with \<^verbatim>\<open>?.\<close> or \<^verbatim>\<open>||\<close> is a
  \<^typ>\<open>real option\<close>: \<open>None\<close> stands for a value that is not a number at all
  (\<^verbatim>\<open>undefined\<close>, \<^verbatim>\<open>null\<close>, or \<^verbatim>\<open>NaN\<close>, which \<^verbatim>\<open>||\<close> treats alike).
  Nested objects that the code reads with \<^verbatim>\<open>?.\<close> are options as well.
\<close>

record token =
  tok_address :: string
  tok_name :: string
  tok_symbol :: string

record txn_count =
  buys :: real
  sells :: real

record txn_windows =
  tx_m5 :: txn_count
  tx_h1 :: txn_count
  tx_h6 :: txn_count
  tx_h24 :: txn_count

record volume_windows =
  vol_h24 :: "real option"
  vol_h6 :: "real option"
  vol_h1 :: "real option"
  vol_m5 :: "real option"

record price_change_windows =
  pc_m5 :: "real option"
  pc_h1 :: "real option"
  pc_h6 :: "real option"
  pc_h24 :: "real option"

record liquidity_sides =
  usd :: "real option"
  liq_base :: "real option"
  liq_quote :: "real option"

record website =
  web_label :: string
  web_url :: string

record social =
  soc_type :: string
  soc_url :: string

record pair_info =
  imageUrl :: "string option"
  websites :: "website list option"
  socials :: "social list option"

record DexScreenerPair =
  chainId :: string
  dexId :: string
  url :: string
  pairAddress :: string
  baseToken :: token
  quoteToken :: token
  priceNative :: string
  priceUsd :: string
  txns :: txn_windows
  volume :: "volume_windows option"
  priceChange :: "price_change_windows option"
  liquidity :: "liquidity_sides option"
  fdv :: "real option"
  marketCap :: "real option"
  pairCreatedAt :: real
  info :: "pair_info option"

record TokenMetrics =
  tm_ticker :: string
  tm_name :: string
  tm_chain :: string
  tm_contract :: string
  tm_priceUsd :: real
  tm_priceChange24h :: real
  tm_volume24h :: real
  tm_liquidity :: real
  tm_marketCap :: real
  tm_fdv :: real
  tm_pairUrl :: string
  tm_dex :: string
  tm_imageUrl :: "string option"
  tm_fetchedAt :: nat

record TokenSocials =
  twitter :: "string option"
  telegram :: "string option"
  discord :: "string option"
  website :: "string option"

section \<open>Truthiness of numbers\<close>

text \<open>A number is falsy when it is missing, \<^verbatim>\<open>NaN\<close> or zero.\<close>

definition truthy_num :: "real option \<Rightarrow> bool" where
  "truthy_num v = (case v of None \<Rightarrow> False | Some x \<Rightarrow> x \<noteq> 0)"

text \<open>\<^verbatim>\<open>a || b\<close> on two optional numbers.\<close>

definition num_or :: "real option \<Rightarrow> real option \<Rightarrow> real option" where
  "num_or a b = (if truthy_num a then a else b)"

text \<open>\<^verbatim>\<open>a || 0\<close>: the result is always a number.\<close>

definition or0 :: "real option \<Rightarrow> real" where
  "or0 a = (case a of None \<Rightarrow> 0 | Some x \<Rightarrow> if x \<noteq> 0 then x else 0)"

section \<open>Best-liquidity selection\<close>

text \<open>\<^verbatim>\<open>pair.liquidity?.usd\<close>\<close>

definition liquidity_usd :: "DexScreenerPair \<Rightarrow> real option" where
  "liquidity_usd p = (case liquidity p of None \<Rightarrow> None | Some l \<Rightarrow> usd l)"

text \<open>\<^verbatim>\<open>pair.liquidity?.usd || 0\<close>\<close>

definition liq :: "DexScreenerPair \<Rightarrow> real" where
  "liq p = or0 (liquidity_usd p)"

text \<open>
  The callback of the three \<^verbatim>\<open>reduce\<close> calls:
  \<^verbatim>\<open>(best, pair) => pairLiq > bestLiq ? pair : best\<close>.
\<close>

definition higherLiquidity :: "DexScreenerPair \<Rightarrow> DexScreenerPair \<Rightarrow> DexScreenerPair" where
  "higherLiquidity best p =
     (let bestLiq = liq best; pairLiq = liq p in if pairLiq > bestLiq then p else best)"

text \<open>
  \<^verbatim>\<open>pairs.reduce(callback, pairs[0])\<close>: the fold starts from the first element and
  visits every element, the first one included. On the empty list \<^verbatim>\<open>pairs[0]\<close> is
  \<^verbatim>\<open>undefined\<close>, here \<open>None\<close>; every caller excludes that case beforehand.
\<close>

definition reduceBest :: "DexScreenerPair list \<Rightarrow> DexScreenerPair option" where
  "reduceBest ps = (case ps of [] \<Rightarrow> None | p0 # _ \<Rightarrow> Some (foldl higherLiquidity p0 ps))"

section \<open>The network and the log\<close>

text \<open>
  A response body either fails to parse as an object (\<^verbatim>\<open>response.json()\<close> rejects, or
  reading \<^verbatim>\<open>data.pairs\<close> throws) or is an object whose \<^verbatim>\<open>pairs\<close> field may be
  missing or \<^verbatim>\<open>null\<close>.
\<close>

datatype json_body = Unparseable | Data "DexScreenerPair list option"

text \<open>\<^verbatim>\<open>fetch\<close> either rejects (a network failure) or resolves to a response with a status.\<close>

datatype fetch_result = Rejected | Response nat json_body

datatype event = Fetch string | Sleep nat | ConsoleError string

text \<open>
  The world holds the responses the network will deliver, in the order of the requests,
  and the trace of the effects performed so far. Once the responses run out, a request
  is rejected.
\<close>

record world =
  pending :: "fetch_result list"
  trace :: "event list"

definition emit :: "event \<Rightarrow> world \<Rightarrow> world" where
  "emit e w = w\<lparr>trace := trace w @ [e]\<rparr>"

definition fetch :: "world \<Rightarrow> string \<Rightarrow> fetch_result \<times> world" where
  "fetch w u =
     (case pending w of
        [] \<Rightarrow> (Rejected, emit (Fetch u) w)
      | r # rs \<Rightarrow> (r, emit (Fetch u) (w\<lparr>pending := rs\<rparr>)))"

text \<open>\<^verbatim>\<open>response.ok\<close>: the status is in the range 200-299.\<close>

definition ok :: "nat \<Rightarrow> bool" where
  "ok status = (200 \<le> status \<and> status \<le> 299)"

text \<open>\<^verbatim>\<open>data.pairs || []\<close>\<close>

definition pairs_of :: "DexScreenerPair list option \<Rightarrow> DexScreenerPair list" where
  "pairs_of d = (case d of None \<Rightarrow> [] | Some ps \<Rightarrow> ps)"

section \<open>searchToken\<close>

definition searchToken :: "world \<Rightarrow> string \<Rightarrow> DexScreenerPair option \<times> world" where
  "searchToken w query =
     (let u = DEXSCREENER_BASE @ ''/dex/search?q='' @ encodeURIComponent query;
          failed = ConsoleError (''DexScreener search error for '' @ query @ '':'')
      in case fetch w u of
           (Rejected, w1) \<Rightarrow> (None, emit failed w1)
         | (Response status body, w1) \<Rightarrow>
             if \<not> ok status then (None, emit failed w1)
             else (case body of
                     Unparseable \<Rightarrow> (None, emit failed w1)
                   | Data d \<Rightarrow>
                       (let pairs = pairs_of d
                        in if length pairs = 0 then (None, w1)
                           else (reduceBest pairs, w1))))"

section \<open>getTokenByAddress\<close>

definition getTokenByAddress :: "world \<Rightarrow> string \<Rightarrow> string \<Rightarrow> DexScreenerPair option \<times> world" where
  "getTokenByAddress w chain address =
     (let cid = normalizeChain chain;
          u = DEXSCREENER_BASE @ ''/dex/tokens/'' @ address;
          failed = ConsoleError (''DexScreener fetch error for '' @ chain @ '':'' @ address @ '':'')
      in case fetch w u of
           (Rejected, w1) \<Rightarrow> (None, emit failed w1)
         | (Response status body, w1) \<Rightarrow>
             if \<not> ok status then (None, emit failed w1)
             else (case body of
                     Unparseable \<Rightarrow> (None, emit failed w1)
                   | Data d \<Rightarrow>
                       (let pairs = pairs_of d
                        in if length pairs = 0 then (None, w1)
                           else (let filteredPairs =
                                       (if truthy_str cid then filter (\<lambda>p. chainId p = cid) pairs
                                        else pairs)
                                 in if length filteredPairs = 0 then (Some (pairs ! 0), w1)
                                    else (reduceBest filteredPairs, w1)))))"

section \<open>pairToMetrics and getTokenMetrics\<close>

text \<open>
  \<^verbatim>\<open>toUpperCase\<close>, \<^verbatim>\<open>parseFloat\<close> and the clock belong to the host, not to the
  library: the projection takes them as parameters. \<open>upper\<close> is
  \<^verbatim>\<open>String.prototype.toUpperCase\<close>; \<open>parseFloat s = None\<close> says that the string does not
  parse (\<^verbatim>\<open>NaN\<close>); \<open>now\<close> is what \<^verbatim>\<open>new Date()\<close> reads.
\<close>

definition pairToMetrics ::
  "(string \<Rightarrow> string) \<Rightarrow> (string \<Rightarrow> real option) \<Rightarrow> nat \<Rightarrow> DexScreenerPair \<Rightarrow> TokenMetrics" where
  "pairToMetrics upper parseFloat now p =
     \<lparr> tm_ticker = tok_symbol (baseToken p),
       tm_name = tok_name (baseToken p),
       tm_chain = upper (chainId p),
       tm_contract = tok_address (baseToken p),
       tm_priceUsd = or0 (parseFloat (priceUsd p)),
       tm_priceChange24h = or0 (case priceChange p of None \<Rightarrow> None | Some c \<Rightarrow> pc_h24 c),
       tm_volume24h = or0 (case volume p of None \<Rightarrow> None | Some v \<Rightarrow> vol_h24 v),
       tm_liquidity = or0 (liquidity_usd p),
       tm_marketCap = or0 (num_or (marketCap p) (fdv p)),
       tm_fdv = or0 (fdv p),
       tm_pairUrl = url p,
       tm_dex = dexId p,
       tm_imageUrl = (case info p of None \<Rightarrow> None | Some i \<Rightarrow> imageUrl i),
       tm_fetchedAt = now \<rparr>"

text \<open>
  The clock is a function of the effects performed so far: the time a projection is
  stamped with depends on nothing else the library can observe.
\<close>

definition getTokenMetrics ::
  "(string \<Rightarrow> string) \<Rightarrow> (string \<Rightarrow> real option) \<Rightarrow> (event list \<Rightarrow> nat) \<Rightarrow> world \<Rightarrow> string \<Rightarrow> string option
     \<Rightarrow> TokenMetrics option \<times> world" where
  "getTokenMetrics upper parseFloat clock w ticker chain =
     (let query = (case chain of
                     None \<Rightarrow> ticker
                   | Some c \<Rightarrow> if truthy_str c then ticker @ '' '' @ c else ticker)
      in case searchToken w query of
           (None, w1) \<Rightarrow> (None, w1)
         | (Some pair, w1) \<Rightarrow>
             if upper (tok_symbol (baseToken pair)) \<noteq> upper ticker then
               (case searchToken w1 ticker of
                  (None, w2) \<Rightarrow> (None, w2)
                | (Some retryPair, w2) \<Rightarrow>
                    if upper (tok_symbol (baseToken retryPair)) \<noteq> upper ticker
                    then (None, w2)
                    else (Some (pairToMetrics upper parseFloat (clock (trace w2)) retryPair), w2))
             else (Some (pairToMetrics upper parseFloat (clock (trace w1)) pair), w1))"

section \<open>getTokensByAddresses\<close>

definition BATCH_SIZE :: nat where
  "BATCH_SIZE = 30"

text \<open>\<^verbatim>\<open>xs.slice(i, j)\<close> for \<open>0 \<le> i \<le> j\<close>.\<close>

definition slice :: "'a list \<Rightarrow> nat \<Rightarrow> nat \<Rightarrow> 'a list" where
  "slice xs i j = take (j - i) (drop i xs)"

text \<open>
  \<^verbatim>\<open>for (let i = 0; i < addresses.length; i += BATCH_SIZE) batches.push(addresses.slice(i, i + BATCH_SIZE))\<close>
\<close>

function make_batches :: "string list \<Rightarrow> nat \<Rightarrow> string list list \<Rightarrow> string list list" where
  "make_batches addresses i batches =
     (if i < length addresses
      then make_batches addresses (i + BATCH_SIZE) (batches @ [slice addresses i (i + BATCH_SIZE)])
      else batches)"
  by pat_completeness auto
termination
  by (relation "measure (\<lambda>(addresses, i, batches). length addresses - i)")
     (auto simp: BATCH_SIZE_def)

declare make_batches.simps [simp del]

text \<open>\<^verbatim>\<open>batch.join(',')\<close>\<close>

fun join :: "string list \<Rightarrow> string" where
  "join [] = []"
| "join [a] = a"
| "join (a # b # rest) = a @ '','' @ join (b # rest)"

text \<open>
  A JavaScript \<^verbatim>\<open>Map\<close> is an association list in insertion order; \<^verbatim>\<open>set\<close> is
  \<^const>\<open>AList.update\<close> (an existing key keeps its place) and \<^verbatim>\<open>get\<close> is \<^const>\<open>map_of\<close>.
\<close>

text \<open>\<^verbatim>\<open>normalizedChain && pair.chainId !== normalizedChain\<close>\<close>

definition other_chain :: "string option \<Rightarrow> DexScreenerPair \<Rightarrow> bool" where
  "other_chain normalizedChain p =
     (case normalizedChain of
        None \<Rightarrow> False
      | Some c \<Rightarrow> truthy_str c \<and> chainId p \<noteq> c)"

text \<open>The body of the grouping loop.\<close>

definition group_step ::
  "string option \<Rightarrow> (string \<times> DexScreenerPair list) list \<Rightarrow> DexScreenerPair
     \<Rightarrow> (string \<times> DexScreenerPair list) list" where
  "group_step normalizedChain pairsByAddress p =
     (if other_chain normalizedChain p then pairsByAddress
      else (let addr = tok_address (baseToken p);
                existing = (case map_of pairsByAddress addr of None \<Rightarrow> [] | Some ps \<Rightarrow> ps)
            in AList.update addr (existing @ [p]) pairsByAddress))"

text \<open>
  The body of the loop over the groups. A group is created with its first pair, so it is
  never empty and \<^const>\<open>reduceBest\<close> always yields a pair there.
\<close>

definition set_best ::
  "(string \<times> DexScreenerPair) list \<Rightarrow> string \<times> DexScreenerPair list \<Rightarrow> (string \<times> DexScreenerPair) list" where
  "set_best results entry =
     (case entry of (addr, tokenPairs) \<Rightarrow>
        (case reduceBest tokenPairs of
           None \<Rightarrow> results
         | Some bestPair \<Rightarrow> AList.update addr bestPair results))"

text \<open>
  One iteration of the loop over the batches. \<open>several\<close> is \<^verbatim>\<open>batches.length > 1\<close>.
  A response that is not ok takes the \<^verbatim>\<open>continue\<close>; a rejected request or an unreadable
  body goes to the \<^verbatim>\<open>catch\<close>. Neither reaches the pause at the end of the \<^verbatim>\<open>try\<close>.
\<close>

definition process_batch ::
  "string option \<Rightarrow> bool \<Rightarrow> (string \<times> DexScreenerPair) list \<Rightarrow> world \<Rightarrow> string list
     \<Rightarrow> (string \<times> DexScreenerPair) list \<times> world" where
  "process_batch normalizedChain several results w batch =
     (let addressList = join batch;
          u = DEXSCREENER_BASE @ ''/dex/tokens/'' @ addressList;
          failed = ConsoleError ''DexScreener batch fetch error:''
      in case fetch w u of
           (Rejected, w1) \<Rightarrow> (results, emit failed w1)
         | (Response status body, w1) \<Rightarrow>
             if \<not> ok status then (results, w1)
             else (case body of
                     Unparseable \<Rightarrow> (results, emit failed w1)
                   | Data d \<Rightarrow>
                       (let pairs = pairs_of d;
                            pairsByAddress = foldl (group_step normalizedChain) [] pairs;
                            results' = foldl set_best results pairsByAddress;
                            w2 = (if several then emit (Sleep 100) w1 else w1)
                        in (results', w2))))"

fun batch_loop ::
  "string option \<Rightarrow> bool \<Rightarrow> (string \<times> DexScreenerPair) list \<Rightarrow> world \<Rightarrow> string list list
     \<Rightarrow> (string \<times> DexScreenerPair) list \<times> world" where
  "batch_loop normalizedChain several results w [] = (results, w)"
| "batch_loop normalizedChain several results w (batch # rest) =
     (case process_batch normalizedChain several results w batch of
        (results', w') \<Rightarrow> batch_loop normalizedChain several results' w' rest)"

definition getTokensByAddresses ::
  "world \<Rightarrow> string list \<Rightarrow> string option \<Rightarrow> (string \<times> DexScreenerPair) list \<times> world" where
  "getTokensByAddresses w addresses chainFilter =
     (if length addresses = 0 then ([], w)
      else (let normalizedChain =
                  (case chainFilter of
                     None \<Rightarrow> None
                   | Some c \<Rightarrow> if truthy_str c then Some (normalizeChain c) else None);
                batches = make_batches addresses 0 []
            in batch_loop normalizedChain (length batches > 1) [] w batches))"

section \<open>batchGetMetrics\<close>

record metrics_request =
  req_ticker :: string
  req_chain :: "string option"
  req_contract :: "string option"

text \<open>\<^verbatim>\<open>token.contract && token.chain\<close>: both present and not empty.\<close>

definition contract_and_chain :: "metrics_request \<Rightarrow> (string \<times> string) option" where
  "contract_and_chain token =
     (case req_contract token of
        None \<Rightarrow> None
      | Some contract \<Rightarrow>
          if \<not> truthy_str contract then None
          else (case req_chain token of
                  None \<Rightarrow> None
                | Some chain \<Rightarrow> if truthy_str chain then Some (contract, chain) else None))"

text \<open>The body of the loop, up to the pause.\<close>

definition metrics_step ::
  "(string \<Rightarrow> string) \<Rightarrow> (string \<Rightarrow> real option) \<Rightarrow> (event list \<Rightarrow> nat) \<Rightarrow> (string \<times> TokenMetrics) list \<Rightarrow> world
     \<Rightarrow> metrics_request \<Rightarrow> (string \<times> TokenMetrics) list \<times> world" where
  "metrics_step upper parseFloat clock results w token =
     (case contract_and_chain token of
        Some (contract, chain) \<Rightarrow>
          (case getTokenByAddress w chain contract of
             (None, w1) \<Rightarrow> (results, w1)
           | (Some pair, w1) \<Rightarrow>
               (AList.update (req_ticker token) (pairToMetrics upper parseFloat (clock (trace w1)) pair) results,
                w1))
      | None \<Rightarrow>
          (case getTokenMetrics upper parseFloat clock w (req_ticker token) (req_chain token) of
             (None, w1) \<Rightarrow> (results, w1)
           | (Some metrics, w1) \<Rightarrow> (AList.update (req_ticker token) metrics results, w1)))"

fun metrics_loop ::
  "(string \<Rightarrow> string) \<Rightarrow> (string \<Rightarrow> real option) \<Rightarrow> (event list \<Rightarrow> nat) \<Rightarrow> (string \<times> TokenMetrics) list \<Rightarrow> world
     \<Rightarrow> metrics_request list \<Rightarrow> (string \<times> TokenMetrics) list \<times> world" where
  "metrics_loop upper parseFloat clock results w [] = (results, w)"
| "metrics_loop upper parseFloat clock results w (token # rest) =
     (case metrics_step upper parseFloat clock results w token of
        (results', w') \<Rightarrow> metrics_loop upper parseFloat clock results' (emit (Sleep 250) w') rest)"

definition batchGetMetrics ::
  "(string \<Rightarrow> string) \<Rightarrow> (string \<Rightarrow> real option) \<Rightarrow> (event list \<Rightarrow> nat) \<Rightarrow> world \<Rightarrow> metrics_request list
     \<Rightarrow> (string \<times> TokenMetrics) list \<times> world" where
  "batchGetMetrics upper parseFloat clock w tokens = metrics_loop upper parseFloat clock [] w tokens"

section \<open>extractSocials\<close>

text \<open>The body of the loop over the social links: three independent tests.\<close>

definition social_step :: "TokenSocials \<Rightarrow> social \<Rightarrow> TokenSocials" where
  "social_step s0 sc =
     (let t = toLowerCase (soc_type sc);
          s1 = (if t = ''twitter'' then s0\<lparr>twitter := Some (soc_url sc)\<rparr> else s0);
          s2 = (if t = ''telegram'' then s1\<lparr>telegram := Some (soc_url sc)\<rparr> else s1);
          s3 = (if t = ''discord'' then s2\<lparr>discord := Some (soc_url sc)\<rparr> else s2)
      in s3)"

text \<open>\<^verbatim>\<open>pair.info?.websites?.[0]?.url\<close>\<close>

definition first_website_url :: "DexScreenerPair \<Rightarrow> string option" where
  "first_website_url p =
     (case info p of
        None \<Rightarrow> None
      | Some i \<Rightarrow>
          (case websites i of
             None \<Rightarrow> None
           | Some ws \<Rightarrow> (case ws of [] \<Rightarrow> None | first # _ \<Rightarrow> Some (web_url first))))"

definition extractSocials :: "DexScreenerPair \<Rightarrow> TokenSocials" where
  "extractSocials p =
     (let empty_socials = \<lparr>twitter = None, telegram = None, discord = None, website = None\<rparr>;
          scanned =
            (case info p of
               None \<Rightarrow> empty_socials
             | Some i \<Rightarrow>
                 (case socials i of
                    None \<Rightarrow> empty_socials
                  | Some links \<Rightarrow> foldl social_step empty_socials links))
      in case first_website_url p of
           None \<Rightarrow> scanned
         | Some u \<Rightarrow> if truthy_str u then scanned\<lparr>website := Some u\<rparr> else scanned)"

section \<open>Observations used in the statements\<close>

text \<open>
  The response the network gives to the \<open>k\<close>-th request from now on (counting from 0).
\<close>

definition nth_response :: "fetch_result list \<Rightarrow> nat \<Rightarrow> fetch_result" where
  "nth_response rs k = (if k < length rs then rs ! k else Rejected)"

text \<open>The URLs requested in a trace, in order.\<close>

fun fetched :: "event list \<Rightarrow> string list" where
  "fetched [] = []"
| "fetched (Fetch u # es) = u # fetched es"
| "fetched (Sleep ms # es) = fetched es"
| "fetched (ConsoleError msg # es) = fetched es"

text \<open>The pairs a response delivers: those of an ok response with a readable body.\<close>

definition returned_pairs :: "fetch_result \<Rightarrow> DexScreenerPair list" where
  "returned_pairs r =
     (case r of
        Rejected \<Rightarrow> []
      | Response status body \<Rightarrow>
          if \<not> ok status then []
          else (case body of Unparseable \<Rightarrow> [] | Data d \<Rightarrow> pairs_of d))"

text \<open>A chunk succeeds when its request is answered, with an ok status and a readable body.\<close>

definition succeeded :: "fetch_result \<Rightarrow> bool" where
  "succeeded r =
     (case r of
        Rejected \<Rightarrow> False
      | Response status body \<Rightarrow>
          ok status \<and> (case body of Unparseable \<Rightarrow> False | Data d \<Rightarrow> True))"

text \<open>The URL requested for a chunk of addresses.\<close>

definition batch_url :: "string list \<Rightarrow> string" where
  "batch_url batch = DEXSCREENER_BASE @ ''/dex/tokens/'' @ join batch"

text \<open>
  What the two inner loops of \<^const>\<open>process_batch\<close> compute from the pairs of one response,
  starting from an empty result map.
\<close>

definition batch_best :: "string option \<Rightarrow> fetch_result \<Rightarrow> (string \<times> DexScreenerPair) list" where
  "batch_best normalizedChain r =
     foldl set_best [] (foldl (group_step normalizedChain) [] (returned_pairs r))"

text \<open>The effects of one iteration of \<^const>\<open>process_batch\<close>, given the response it meets.\<close>

definition batch_trace :: "bool \<Rightarrow> string list \<Rightarrow> fetch_result \<Rightarrow> event list" where
  "batch_trace several batch r =
     trace (snd (process_batch None several [] \<lparr>pending = [r], trace = []\<rparr> batch))"

text \<open>
  The invariant of the grouping loop: every group is non-empty, and holds only pairs of
  \<open>S\<close> that pass the chain test and whose base-token address is the group's key.
\<close>

definition groups_ok ::
  "string option \<Rightarrow> DexScreenerPair set \<Rightarrow> (string \<times> DexScreenerPair list) list \<Rightarrow> bool" where
  "groups_ok normalizedChain S groups =
     (\<forall>a ps. (a, ps) \<in> set groups \<longrightarrow>
        ps \<noteq> [] \<and> (\<forall>q\<in>set ps. q \<in> S \<and> \<not> other_chain normalizedChain q
                                   \<and> tok_address (baseToken q) = a))"

text \<open>
  What one request of \<^const>\<open>batchGetMetrics\<close> yields before it is stored: the projection of
  the pair found by address when the request carries a contract and a chain, and the result
  of \<^const>\<open>getTokenMetrics\<close> otherwise.
\<close>

definition request_outcome ::
  "(string \<Rightarrow> string) \<Rightarrow> (string \<Rightarrow> real option) \<Rightarrow> (event list \<Rightarrow> nat) \<Rightarrow> world \<Rightarrow> metrics_request
     \<Rightarrow> TokenMetrics option \<times> world" where
  "request_outcome upper parseFloat clock w token =
     (case contract_and_chain token of
        Some (contract, chain) \<Rightarrow>
          (case getTokenByAddress w chain contract of
             (None, w1) \<Rightarrow> (None, w1)
           | (Some pair, w1) \<Rightarrow> (Some (pairToMetrics upper parseFloat (clock (trace w1)) pair), w1))
      | None \<Rightarrow> getTokenMetrics upper parseFloat clock w (req_ticker token) (req_chain token))"

text \<open>The social links of a pair, none when \<^verbatim>\<open>info\<close> or its list is missing.\<close>

definition social_links :: "DexScreenerPair \<Rightarrow> social list" where
  "social_links p =
     (case info p of None \<Rightarrow> [] | Some i \<Rightarrow> (case socials i of None \<Rightarrow> [] | Some links \<Rightarrow> links))"

text \<open>
  The specification's reading of the scan: the URL of the last link whose lower-cased type
  is \<open>t\<close>, if there is one.
\<close>

definition last_match :: "string \<Rightarrow> social list \<Rightarrow> string option" where
  "last_match t links =
     (let matches = filter (\<lambda>sc. toLowerCase (soc_type sc) = t) links
      in if matches = [] then None else Some (soc_url (last matches)))"

section \<open>Sample data\<close>

text \<open>A pair on a chain, for a token address and symbol, with a given liquidity.\<close>

definition sample_pair :: "string \<Rightarrow> string \<Rightarrow> string \<Rightarrow> real option \<Rightarrow> DexScreenerPair" where
  "sample_pair c a s l =
     \<lparr> chainId = c, dexId = ''raydium'', url = ''https://dexscreener.com/'' @ c @ ''/'' @ a,
       pairAddress = ''pool-'' @ a,
       baseToken = \<lparr>tok_address = a, tok_name = s, tok_symbol = s\<rparr>,
       quoteToken = \<lparr>tok_address = ''usdc'', tok_name = ''USD Coin'', tok_symbol = ''USDC''\<rparr>,
       priceNative = ''1'', priceUsd = ''1.5'',
       txns = \<lparr>tx_m5 = \<lparr>buys = 0, sells = 0\<rparr>, tx_h1 = \<lparr>buys = 0, sells = 0\<rparr>,
                tx_h6 = \<lparr>buys = 0, sells = 0\<rparr>, tx_h24 = \<lparr>buys = 0, sells = 0\<rparr>\<rparr>,
       volume = None, priceChange = None,
       liquidity = Some \<lparr>usd = l, liq_base = None, liq_quote = None\<rparr>,
       fdv = Some 500, marketCap = Some 0, pairCreatedAt = 0, info = None \<rparr>"

text \<open>A world in which nothing has happened yet and the given responses are to come.\<close>

definition sample_world :: "fetch_result list \<Rightarrow> world" where
  "sample_world rs = \<lparr>pending = rs, trace = []\<rparr>"

text \<open>Four pairs with liquidities 3, 7, missing and 7; and two pairs on ethereum.\<close>

definition four_pairs :: "DexScreenerPair list" where
  "four_pairs =
     [sample_pair ''solana'' ''a1'' ''BONK'' (Some 3),
      sample_pair ''solana'' ''a2'' ''BONK'' (Some 7),
      sample_pair ''base'' ''a3'' ''BONK'' None,
      sample_pair ''base'' ''a4'' ''BONK'' (Some 7)]"

definition two_eth_pairs :: "DexScreenerPair list" where
  "two_eth_pairs =
     [sample_pair ''ethereum'' ''a1'' ''BONK'' (Some 1),
      sample_pair ''ethereum'' ''a1'' ''BONK'' (Some 5)]"

text \<open>A \<^verbatim>\<open>parseFloat\<close> that reads no string at all, and a pair with missing parts.\<close>

definition unparsed :: "string \<Rightarrow> real option" where
  "unparsed s = None"

definition odd_pair :: DexScreenerPair where
  "odd_pair =
     (sample_pair ''solana'' ''a1'' ''BONK'' None)
       \<lparr> priceUsd := ''n/a'',
         priceChange := Some \<lparr>pc_m5 = Some 1, pc_h1 = Some 2, pc_h6 = Some 3, pc_h24 = None\<rparr>,
         info := Some \<lparr>imageUrl = None,
                       websites = Some [\<lparr>web_label = ''Website'', web_url = ''''\<rparr>],
                       socials = Some [\<lparr>soc_type = ''Twitter'', soc_url = ''a''\<rparr>,
                                       \<lparr>soc_type = ''twitter'', soc_url = ''b''\<rparr>]\<rparr> \<rparr>"

text \<open>A clock that counts the effects performed so far.\<close>

definition sample_clock :: "event list \<Rightarrow> nat" where
  "sample_clock tr = length tr"

text \<open>
  A fuzzy first answer (symbol BONKINU) followed by the answer to the retry (symbol BONK).
\<close>

definition fuzzy_then_exact :: "fetch_result list" where
  "fuzzy_then_exact =
     [Response 200 (Data (Some [sample_pair ''solana'' ''a9'' ''BONKINU'' (Some 9)])),
      Response 200 (Data (Some [sample_pair ''solana'' ''a1'' ''BONK'' (Some 2)]))]"

text \<open>Thirty-one addresses: a full chunk and a chunk of one.\<close>

definition addresses_31 :: "string list" where
  "addresses_31 = replicate 30 ''a'' @ [''b'']"

text \<open>Sixty-five addresses: the chunks are thirty times a, thirty times b, five times c.\<close>

definition addresses_65 :: "string list" where
  "addresses_65 = replicate 30 ''a'' @ replicate 30 ''b'' @ replicate 5 ''c''"

text \<open>
  A response carrying one pair for the token at address \<open>a\<close>, and three responses for
  three chunks of which the second fails with status 500.
\<close>

definition one_pair_response :: "string \<Rightarrow> fetch_result" where
  "one_pair_response a = Response 200 (Data (Some [sample_pair ''solana'' a ''BONK'' (Some 1)]))"

definition second_fails :: "fetch_result list" where
  "second_fails = [one_pair_response ''a'', Response 500 Unparseable, one_pair_response ''c'']"

text \<open>
  One response for the addresses a and b: a pair of a on solana, a more liquid pair of a on
  ethereum, and a pair of b on ethereum.
\<close>

definition mixed_chains :: "fetch_result list" where
  "mixed_chains =
     [Response 200 (Data (Some
        [sample_pair ''solana'' ''a'' ''BONK'' (Some 1),
         sample_pair ''ethereum'' ''a'' ''BONK'' (Some 9),
         sample_pair ''ethereum'' ''b'' ''PEPE'' (Some 5)]))]"

text \<open>Two successful responses without pairs.\<close>

definition two_empty :: "fetch_result list" where
  "two_empty = [Response 200 (Data (Some [])), Response 200 (Data (Some []))]"

text \<open>
  Two requests under the ticker BONK: the first by ticker and chain, the second by contract
  and chain; and the responses they meet: a pair with symbol BONK for the search, a pair
  with symbol WIF for the address.
\<close>

definition two_bonk_requests :: "metrics_request list" where
  "two_bonk_requests =
     [\<lparr>req_ticker = ''BONK'', req_chain = Some ''solana'', req_contract = None\<rparr>,
      \<lparr>req_ticker = ''BONK'', req_chain = Some ''SOL'', req_contract = Some ''a9''\<rparr>]"

definition bonk_then_wif :: "fetch_result list" where
  "bonk_then_wif =
     [Response 200 (Data (Some [sample_pair ''solana'' ''a1'' ''BONK'' (Some 2)])),
      Response 200 (Data (Some [sample_pair ''solana'' ''a9'' ''WIF'' (Some 4)]))]"

section \<open>Properties of the best-liquidity selection\<close>

lemma higherLiquidity_same: "higherLiquidity p p = p"
  by (simp add: higherLiquidity_def)

lemma find_top_tail:
  assumes "q' \<in> set ps" "liq p < liq q'"
  shows "find (\<lambda>x. \<forall>q\<in>set (p # ps). liq q \<le> liq x) ps = find (\<lambda>x. \<forall>q\<in>set ps. liq q \<le> liq x) ps"
proof (rule find_cong[OF refl])
  fix x assume "x \<in> set ps"
  show "(\<forall>q\<in>set (p # ps). liq q \<le> liq x) = (\<forall>q\<in>set ps. liq q \<le> liq x)"
    using assms by fastforce
qed

lemma foldl_first_top:
  "Some (foldl higherLiquidity b ps) =
     (if \<forall>q\<in>set ps. liq q \<le> liq b then Some b
      else find (\<lambda>x. \<forall>q\<in>set ps. liq q \<le> liq x) ps)"
proof (induction ps arbitrary: b)
  case Nil show ?case by simp
next
  case (Cons p ps)
  show ?case
  proof (cases "liq b < liq p")
    case True
    then have step: "higherLiquidity b p = p" by (simp add: higherLiquidity_def)
    show ?thesis
    proof (cases "\<forall>q\<in>set ps. liq q \<le> liq p")
      case all: True
      then show ?thesis using True step Cons.IH[of p] by auto
    next
      case False
      then obtain q' where q': "q' \<in> set ps" "liq p < liq q'" by force
      show ?thesis using True step Cons.IH[of p] False find_top_tail[OF q'] by auto
    qed
  next
    case False
    then have step: "higherLiquidity b p = b" by (simp add: higherLiquidity_def)
    show ?thesis
    proof (cases "\<forall>q\<in>set ps. liq q \<le> liq b")
      case all: True
      then show ?thesis using False step Cons.IH[of b] by auto
    next
      case nall: False
      then obtain q' where q': "q' \<in> set ps" "liq b < liq q'" by force
      then have q'': "liq p < liq q'" using False by simp
      have "\<not> (\<forall>q\<in>set ps. liq q \<le> liq p)" using q' q'' by force
      then show ?thesis using False step Cons.IH[of b] nall find_top_tail[OF q'(1) q''] by auto
    qed
  qed
qed

lemma reduceBest_find:
  "reduceBest ps = find (\<lambda>x. \<forall>q\<in>set ps. liq q \<le> liq x) ps"
proof (cases ps)
  case Nil then show ?thesis by (simp add: reduceBest_def)
next
  case (Cons p0 rest)
  have "Some (foldl higherLiquidity p0 (p0 # rest)) = Some (foldl higherLiquidity p0 rest)"
    by (simp add: higherLiquidity_same)
  also have "\<dots> = (if \<forall>q\<in>set rest. liq q \<le> liq p0 then Some p0
      else find (\<lambda>x. \<forall>q\<in>set rest. liq q \<le> liq x) rest)" by (rule foldl_first_top)
  also have "\<dots> = find (\<lambda>x. \<forall>q\<in>set (p0 # rest). liq q \<le> liq x) (p0 # rest)"
  proof (cases "\<forall>q\<in>set rest. liq q \<le> liq p0")
    case True then show ?thesis by simp
  next
    case False
    then obtain q' where q': "q' \<in> set rest" "liq p0 < liq q'" by force
    show ?thesis using False find_top_tail[OF q'] by auto
  qed
  finally show ?thesis using Cons by (simp add: reduceBest_def)
qed

lemma exists_top: "ps \<noteq> [] \<Longrightarrow> \<exists>x\<in>set ps. \<forall>q\<in>set ps. liq q \<le> liq x"
proof (induction ps)
  case Nil then show ?case by simp
next
  case (Cons p ps)
  show ?case
  proof (cases "ps = []")
    case True then show ?thesis by simp
  next
    case False
    then obtain x where x: "x \<in> set ps" "\<forall>q\<in>set ps. liq q \<le> liq x" using Cons.IH by blast
    show ?thesis
    proof (cases "liq p \<le> liq x")
      case True then show ?thesis using x by auto
    next
      case False then show ?thesis using x by force
    qed
  qed
qed

lemma reduceBest_Some:
  assumes "ps \<noteq> []"
  shows "\<exists>b i. reduceBest ps = Some b \<and> i < length ps \<and> ps ! i = b
     \<and> (\<forall>q\<in>set ps. liq q \<le> liq b) \<and> (\<forall>j<i. liq (ps ! j) < liq b)"
proof -
  obtain x where x: "x \<in> set ps" "\<forall>q\<in>set ps. liq q \<le> liq x" using exists_top[OF assms] by blast
  then have "find (\<lambda>x. \<forall>q\<in>set ps. liq q \<le> liq x) ps \<noteq> None" by (auto simp: find_None_iff)
  then obtain b where b: "find (\<lambda>x. \<forall>q\<in>set ps. liq q \<le> liq x) ps = Some b" by blast
  then obtain i where i: "i < length ps" "\<forall>q\<in>set ps. liq q \<le> liq (ps ! i)" "b = ps ! i"
      "\<forall>j<i. \<not> (\<forall>q\<in>set ps. liq q \<le> liq (ps ! j))"
    unfolding find_Some_iff by blast
  have "\<forall>j<i. liq (ps ! j) < liq b"
  proof (intro allI impI)
    fix j assume j: "j < i"
    then obtain q where "q \<in> set ps" "\<not> liq q \<le> liq (ps ! j)" using i(4) by blast
    then show "liq (ps ! j) < liq b" using i(2,3) by force
  qed
  then show ?thesis using b i reduceBest_find[of ps] by auto
qed

lemma reduceBest_Max:
  assumes "reduceBest ps = Some b"
  shows "liq b = Max (liq ` set ps)"
proof -
  have ne: "ps \<noteq> []" using assms by (auto simp: reduceBest_def)
  from reduceBest_Some[OF ne] assms have "b \<in> set ps" "\<forall>q\<in>set ps. liq q \<le> liq b" by auto
  then show ?thesis by (intro Max_eqI[symmetric]) auto
qed

lemma searchToken_ok:
  assumes "pending w = Response status (Data (Some ps)) # rest" and "ok status" and "ps \<noteq> []"
  shows "fst (searchToken w query) = reduceBest ps"
  using assms by (simp add: searchToken_def fetch_def pairs_of_def Let_def)

text \<open>
  Claim C5. When the search response carries a non-empty list of pairs, \<^const>\<open>searchToken\<close>
  returns a pair of the list whose liquidity (missing liquidity counted as 0) is the maximum
  over the list; it is the earliest pair with that liquidity (every pair before it has
  strictly less); and a response carrying any permutation of the list yields a pair with the
  same liquidity.
\<close>

theorem searchToken_selects_first_maximum:
  assumes "pending w = Response status (Data (Some ps)) # rest" and "ok status" and "ps \<noteq> []"
  shows "\<exists>b i. fst (searchToken w query) = Some b \<and> i < length ps \<and> ps ! i = b
           \<and> liq b = Max (liq ` set ps)
           \<and> (\<forall>j<i. liq (ps ! j) < liq b)
           \<and> (\<forall>w' status' ps' rest' query'.
                 pending w' = Response status' (Data (Some ps')) # rest' \<and> ok status'
                   \<and> mset ps' = mset ps
                 \<longrightarrow> (\<exists>b'. fst (searchToken w' query') = Some b' \<and> liq b' = liq b))"
proof -
  obtain b i where b: "reduceBest ps = Some b" "i < length ps" "ps ! i = b"
      "\<forall>j<i. liq (ps ! j) < liq b"
    using reduceBest_Some[OF assms(3)] by blast
  have mx: "liq b = Max (liq ` set ps)" by (rule reduceBest_Max[OF b(1)])
  have perm: "\<exists>b'. fst (searchToken w' query') = Some b' \<and> liq b' = liq b"
    if h: "pending w' = Response status' (Data (Some ps')) # rest'" "ok status'" "mset ps' = mset ps"
    for w' status' ps' rest' query'
  proof -
    have ne: "ps' \<noteq> []" using h(3) assms(3) by auto
    obtain b' where b': "reduceBest ps' = Some b'" using reduceBest_Some[OF ne] by blast
    have "set ps' = set ps" using h(3) by (rule mset_eq_setD)
    then have "liq b' = liq b" using reduceBest_Max[OF b'] mx by simp
    then show ?thesis using searchToken_ok[OF h(1,2) ne] b' by simp
  qed
  have "fst (searchToken w query) = Some b \<and> i < length ps \<and> ps ! i = b
           \<and> liq b = Max (liq ` set ps)
           \<and> (\<forall>j<i. liq (ps ! j) < liq b)
           \<and> (\<forall>w' status' ps' rest' query'.
                 pending w' = Response status' (Data (Some ps')) # rest' \<and> ok status'
                   \<and> mset ps' = mset ps
                 \<longrightarrow> (\<exists>b'. fst (searchToken w' query') = Some b' \<and> liq b' = liq b))"
    using searchToken_ok[OF assms, of query] b mx perm by auto
  then show ?thesis by blast
qed

lemma liq_sample [simp]: "liq (sample_pair c a s l) = or0 l"
  by (simp add: liq_def liquidity_usd_def sample_pair_def)

text \<open>
  On four pairs with liquidities 3, 7, missing and 7 the theorem leaves only the second pair.
\<close>

theorem searchToken_selects_first_maximum_witness:
  "fst (searchToken (sample_world [Response 200 (Data (Some four_pairs))]) ''BONK'')
     = Some (sample_pair ''solana'' ''a2'' ''BONK'' (Some 7))"
proof -
  have h1: "pending (sample_world [Response 200 (Data (Some four_pairs))])
              = Response 200 (Data (Some four_pairs)) # []"
    by (simp add: sample_world_def)
  have h2: "ok 200" by (simp add: ok_def)
  have h3: "four_pairs \<noteq> []" by (simp add: four_pairs_def)
  obtain b i where bi: "fst (searchToken (sample_world [Response 200 (Data (Some four_pairs))]) ''BONK'') = Some b"
     "i < length four_pairs" "four_pairs ! i = b" "liq b = Max (liq ` set four_pairs)"
     "\<forall>j<i. liq (four_pairs ! j) < liq b"
    using searchToken_selects_first_maximum[OF h1 h2 h3, of "''BONK''"] by blast
  have mx: "liq b = 7" using bi(4) by (simp add: four_pairs_def or0_def)
  have "i < 4" using bi(2) by (simp add: four_pairs_def)
  then consider "i = 0" | "i = 1" | "i = 2" | "i = 3" by linarith
  then have "i = 1"
  proof cases
    case 1 then show ?thesis using bi(3) mx by (auto simp: four_pairs_def or0_def)
  next
    case 2 then show ?thesis .
  next
    case 3 then show ?thesis using bi(3) mx by (auto simp: four_pairs_def or0_def)
  next
    case 4 then show ?thesis using bi(5) mx by (auto simp: four_pairs_def or0_def dest: spec[of _ 1])
  qed
  then show ?thesis using bi(1,3) by (simp add: four_pairs_def)
qed

section \<open>getTokenByAddress: the empty chain and the fallback\<close>

lemma normalizeChain_empty: "normalizeChain [] = []"
  by (simp add: normalizeChain_def toUpperCase_def toLowerCase_def CHAIN_MAP_def)

lemma normalizeChain_nonempty: "chain \<noteq> [] \<Longrightarrow> normalizeChain chain \<noteq> []"
  by (auto simp: normalizeChain_def truthy_str_def toLowerCase_def split: option.splits)

lemma getTokenByAddress_ok:
  assumes "pending w = Response status (Data (Some ps)) # rest" and "ok status" and "ps \<noteq> []"
  shows "fst (getTokenByAddress w chain address) =
     (let cid = normalizeChain chain;
          filteredPairs = (if cid \<noteq> [] then filter (\<lambda>p. chainId p = cid) ps else ps)
      in if filteredPairs = [] then Some (ps ! 0) else reduceBest filteredPairs)"
  using assms by (simp add: getTokenByAddress_def fetch_def pairs_of_def Let_def truthy_str_def)

text \<open>
  Claim C9. With the empty string as chain, \<^const>\<open>normalizeChain\<close> yields the empty
  string, no pair is filtered out, and on a response with a non-empty list of pairs the
  operation returns the selection over the whole list: the first pair of maximal liquidity,
  whatever its chain.
\<close>

theorem getTokenByAddress_empty_chain:
  assumes "pending w = Response status (Data (Some ps)) # rest" and "ok status" and "ps \<noteq> []"
  shows "normalizeChain [] = []
     \<and> fst (getTokenByAddress w [] address) = reduceBest ps
     \<and> (\<exists>b i. fst (getTokenByAddress w [] address) = Some b \<and> i < length ps \<and> ps ! i = b
           \<and> liq b = Max (liq ` set ps) \<and> (\<forall>j<i. liq (ps ! j) < liq b))"
proof -
  have eq: "fst (getTokenByAddress w [] address) = reduceBest ps"
    using getTokenByAddress_ok[OF assms, of "[]" address] assms(3)
    by (simp add: normalizeChain_empty)
  obtain b i where b: "reduceBest ps = Some b" "i < length ps" "ps ! i = b"
      "\<forall>j<i. liq (ps ! j) < liq b"
    using reduceBest_Some[OF assms(3)] by blast
  have "liq b = Max (liq ` set ps)" by (rule reduceBest_Max[OF b(1)])
  then have "fst (getTokenByAddress w [] address) = Some b \<and> i < length ps \<and> ps ! i = b
           \<and> liq b = Max (liq ` set ps) \<and> (\<forall>j<i. liq (ps ! j) < liq b)"
    using eq b by simp
  then show ?thesis using eq normalizeChain_empty by blast
qed

theorem getTokenByAddress_empty_chain_witness:
  "fst (getTokenByAddress (sample_world [Response 200 (Data (Some four_pairs))]) [] ''a1'')
     = reduceBest four_pairs
   \<and> reduceBest four_pairs = Some (sample_pair ''solana'' ''a2'' ''BONK'' (Some 7))"
proof -
  have h1: "pending (sample_world [Response 200 (Data (Some four_pairs))])
              = Response 200 (Data (Some four_pairs)) # []"
    by (simp add: sample_world_def)
  have h2: "ok 200" by (simp add: ok_def)
  have h3: "four_pairs \<noteq> []" by (simp add: four_pairs_def)
  have "reduceBest four_pairs = Some (sample_pair ''solana'' ''a2'' ''BONK'' (Some 7))"
    by (simp add: reduceBest_def four_pairs_def higherLiquidity_def or0_def)
  then show ?thesis using getTokenByAddress_empty_chain[OF h1 h2 h3, of "''a1''"] by simp
qed

text \<open>
  Claim C1 as stated fails. The response below has two pairs on ethereum, with liquidities
  1 and 5, and the chain asked for is solana: the operation returns the first pair, whose
  liquidity is below the maximum.
\<close>

theorem getTokenByAddress_fallback_counterexample:
  "fst (getTokenByAddress (sample_world [Response 200 (Data (Some two_eth_pairs))]) ''SOL'' ''a1'')
     = Some (sample_pair ''ethereum'' ''a1'' ''BONK'' (Some 1))
   \<and> normalizeChain ''SOL'' = ''solana''
   \<and> map chainId two_eth_pairs = [''ethereum'', ''ethereum'']
   \<and> liq (sample_pair ''ethereum'' ''a1'' ''BONK'' (Some 1)) < Max (liq ` set two_eth_pairs)"
  by (simp add: getTokenByAddress_def fetch_def pairs_of_def ok_def sample_world_def two_eth_pairs_def
      normalizeChain_def CHAIN_MAP_def toUpperCase_def upper_char_def lower_letters_def upper_letters_def
      truthy_str_def or0_def emit_def)
    (simp add: sample_pair_def)

text \<open>
  Claim C1, amended. With a non-empty chain, when the response carries a non-empty list of
  pairs none of which is on the normalized chain, the operation returns the first pair of
  the response (\<^verbatim>\<open>pairs[0]\<close>), whatever its liquidity, rather than absent.
\<close>

theorem getTokenByAddress_fallback_first_pair:
  assumes "pending w = Response status (Data (Some ps)) # rest" and "ok status" and "ps \<noteq> []"
    and "chain \<noteq> []" and "\<forall>p\<in>set ps. chainId p \<noteq> normalizeChain chain"
  shows "fst (getTokenByAddress w chain address) = Some (ps ! 0)"
proof -
  have "filter (\<lambda>p. chainId p = normalizeChain chain) ps = []"
    using assms(5) by (simp add: filter_empty_conv)
  then show ?thesis
    using getTokenByAddress_ok[OF assms(1-3), of chain address] normalizeChain_nonempty[OF assms(4)]
    by (simp add: Let_def)
qed

theorem getTokenByAddress_fallback_first_pair_witness:
  "fst (getTokenByAddress (sample_world [Response 200 (Data (Some two_eth_pairs))]) ''SOL'' ''a1'')
     = Some (two_eth_pairs ! 0)"
proof -
  have h1: "pending (sample_world [Response 200 (Data (Some two_eth_pairs))])
              = Response 200 (Data (Some two_eth_pairs)) # []"
    by (simp add: sample_world_def)
  have h2: "ok 200" by (simp add: ok_def)
  have h3: "two_eth_pairs \<noteq> []" by (simp add: two_eth_pairs_def)
  have h4: "''SOL'' \<noteq> []" by simp
  have n: "normalizeChain ''SOL'' = ''solana''"
    by (simp add: normalizeChain_def CHAIN_MAP_def toUpperCase_def upper_char_def lower_letters_def
        upper_letters_def truthy_str_def)
  have h5: "\<forall>p\<in>set two_eth_pairs. chainId p \<noteq> normalizeChain ''SOL''"
    by (simp add: n two_eth_pairs_def sample_pair_def)
  show ?thesis by (rule getTokenByAddress_fallback_first_pair[OF h1 h2 h3 h4 h5])
qed

section \<open>pairToMetrics: the defaults\<close>

text \<open>
  Claim C6. \<^const>\<open>pairToMetrics\<close> has no failure path: every read of a field that may be
  missing is guarded. A price string that does not parse gives price 0; a missing
  \<^verbatim>\<open>priceChange\<close> or \<^verbatim>\<open>priceChange.h24\<close> gives 0, and so do a missing volume,
  liquidity and FDV; and when the pair's market cap is zero or missing, the projected
  market cap is the projected FDV, that is the pair's FDV when it has one.
\<close>

theorem pairToMetrics_defaults:
  "(parseFloat (priceUsd p) = None \<longrightarrow> tm_priceUsd (pairToMetrics upper parseFloat now p) = 0)
   \<and> (priceChange p = None \<longrightarrow> tm_priceChange24h (pairToMetrics upper parseFloat now p) = 0)
   \<and> (priceChange p = Some c \<and> pc_h24 c = None
        \<longrightarrow> tm_priceChange24h (pairToMetrics upper parseFloat now p) = 0)
   \<and> (volume p = None \<longrightarrow> tm_volume24h (pairToMetrics upper parseFloat now p) = 0)
   \<and> (volume p = Some v \<and> vol_h24 v = None
        \<longrightarrow> tm_volume24h (pairToMetrics upper parseFloat now p) = 0)
   \<and> (liquidity p = None \<longrightarrow> tm_liquidity (pairToMetrics upper parseFloat now p) = 0)
   \<and> (liquidity p = Some l \<and> usd l = None
        \<longrightarrow> tm_liquidity (pairToMetrics upper parseFloat now p) = 0)
   \<and> (fdv p = None \<longrightarrow> tm_fdv (pairToMetrics upper parseFloat now p) = 0)
   \<and> (fdv p = Some x \<longrightarrow> tm_fdv (pairToMetrics upper parseFloat now p) = x)
   \<and> (marketCap p = None \<or> marketCap p = Some 0
        \<longrightarrow> tm_marketCap (pairToMetrics upper parseFloat now p) = tm_fdv (pairToMetrics upper parseFloat now p))
   \<and> ((marketCap p = None \<or> marketCap p = Some 0) \<and> fdv p = Some x
        \<longrightarrow> tm_marketCap (pairToMetrics upper parseFloat now p) = x)"
  by (auto simp: pairToMetrics_def or0_def num_or_def truthy_num_def liquidity_usd_def)

text \<open>
  A pair with an unparseable price, no \<^verbatim>\<open>h24\<close> price change, market cap 0 and FDV 500.
\<close>

theorem pairToMetrics_defaults_witness:
  "tm_priceUsd (pairToMetrics toUpperCase unparsed 0 odd_pair) = 0
   \<and> tm_priceChange24h (pairToMetrics toUpperCase unparsed 0 odd_pair) = 0
   \<and> tm_volume24h (pairToMetrics toUpperCase unparsed 0 odd_pair) = 0
   \<and> tm_liquidity (pairToMetrics toUpperCase unparsed 0 odd_pair) = 0
   \<and> marketCap odd_pair = Some 0 \<and> fdv odd_pair = Some 500
   \<and> tm_marketCap (pairToMetrics toUpperCase unparsed 0 odd_pair) = 500"
  using pairToMetrics_defaults[of unparsed odd_pair toUpperCase 0
      "\<lparr>pc_m5 = Some 1, pc_h1 = Some 2, pc_h6 = Some 3, pc_h24 = None\<rparr>"
      "\<lparr>vol_h24 = None, vol_h6 = None, vol_h1 = None, vol_m5 = None\<rparr>"
      "\<lparr>usd = None, liq_base = None, liq_quote = None\<rparr>" 500]
  by (simp add: unparsed_def odd_pair_def sample_pair_def)

section \<open>extractSocials: last match and first website\<close>

lemma social_step_fields:
  "twitter (social_step s sc) =
     (if toLowerCase (soc_type sc) = ''twitter'' then Some (soc_url sc) else twitter s)"
  "telegram (social_step s sc) =
     (if toLowerCase (soc_type sc) = ''telegram'' then Some (soc_url sc) else telegram s)"
  "discord (social_step s sc) =
     (if toLowerCase (soc_type sc) = ''discord'' then Some (soc_url sc) else discord s)"
  "website (social_step s sc) = website s"
  by (simp_all add: social_step_def Let_def)

lemma last_match_snoc:
  "last_match t (links @ [sc]) =
     (if toLowerCase (soc_type sc) = t then Some (soc_url sc) else last_match t links)"
  by (simp add: last_match_def Let_def)

lemma foldl_social_step:
  "twitter (foldl social_step s links) =
     (case last_match ''twitter'' links of None \<Rightarrow> twitter s | Some u \<Rightarrow> Some u)"
  "telegram (foldl social_step s links) =
     (case last_match ''telegram'' links of None \<Rightarrow> telegram s | Some u \<Rightarrow> Some u)"
  "discord (foldl social_step s links) =
     (case last_match ''discord'' links of None \<Rightarrow> discord s | Some u \<Rightarrow> Some u)"
  "website (foldl social_step s links) = website s"
proof (induction links rule: rev_induct)
  case Nil
  { case 1 show ?case by (simp add: last_match_def) }
  { case 2 show ?case by (simp add: last_match_def) }
  { case 3 show ?case by (simp add: last_match_def) }
  { case 4 show ?case by simp }
next
  case (snoc sc links)
  { case 1 show ?case using snoc(1) by (simp add: social_step_fields last_match_snoc) }
  { case 2 show ?case using snoc(2) by (simp add: social_step_fields last_match_snoc) }
  { case 3 show ?case using snoc(3) by (simp add: social_step_fields last_match_snoc) }
  { case 4 show ?case using snoc(4) by (simp add: social_step_fields) }
qed

text \<open>
  Claim C7 as stated fails on the website: when the first entry of the website list has the
  empty string as URL, the truthiness test leaves the website absent, where the claim
  promises the first entry's URL.
\<close>

theorem extractSocials_website_counterexample:
  "info odd_pair = Some \<lparr>imageUrl = None,
                       websites = Some [\<lparr>web_label = ''Website'', web_url = ''''\<rparr>],
                       socials = Some [\<lparr>soc_type = ''Twitter'', soc_url = ''a''\<rparr>,
                                       \<lparr>soc_type = ''twitter'', soc_url = ''b''\<rparr>]\<rparr>
   \<and> first_website_url odd_pair = Some ''''
   \<and> website (extractSocials odd_pair) = None"
  by (simp add: odd_pair_def sample_pair_def extractSocials_def first_website_url_def truthy_str_def
      social_step_fields)

text \<open>
  Claim C7, amended. For each of the types twitter, telegram and discord,
  \<^const>\<open>extractSocials\<close> returns the URL of the last social link whose type matches
  case-insensitively, absent when none matches; the website is the URL of the first entry
  of the website list when that URL is not empty, and is absent when the list is missing or
  empty or when that URL is the empty string.
\<close>

theorem extractSocials_last_match:
  "twitter (extractSocials p) = last_match ''twitter'' (social_links p)
   \<and> telegram (extractSocials p) = last_match ''telegram'' (social_links p)
   \<and> discord (extractSocials p) = last_match ''discord'' (social_links p)
   \<and> (website (extractSocials p) = Some u \<longleftrightarrow>
        u \<noteq> [] \<and> (\<exists>i w ws. info p = Some i \<and> websites i = Some (w # ws) \<and> web_url w = u))"
proof -
  have tw: "twitter (extractSocials p) = last_match ''twitter'' (social_links p)"
    by (simp add: extractSocials_def social_links_def foldl_social_step last_match_def Let_def
        split: option.splits)
  have te: "telegram (extractSocials p) = last_match ''telegram'' (social_links p)"
    by (simp add: extractSocials_def social_links_def foldl_social_step last_match_def Let_def
        split: option.splits)
  have di: "discord (extractSocials p) = last_match ''discord'' (social_links p)"
    by (simp add: extractSocials_def social_links_def foldl_social_step last_match_def Let_def
        split: option.splits)
  have we: "website (extractSocials p) = Some u \<longleftrightarrow>
        u \<noteq> [] \<and> (\<exists>i w ws. info p = Some i \<and> websites i = Some (w # ws) \<and> web_url w = u)"
    by (auto simp: extractSocials_def first_website_url_def foldl_social_step truthy_str_def Let_def
        split: option.splits list.splits)
  show ?thesis using tw te di we by blast
qed

theorem extractSocials_last_match_witness:
  "twitter (extractSocials odd_pair) = Some ''b''
   \<and> telegram (extractSocials odd_pair) = None
   \<and> website (extractSocials odd_pair) \<noteq> Some ''''"
  using extractSocials_last_match[of odd_pair "''''"]
  by (simp add: social_links_def last_match_def odd_pair_def sample_pair_def toLowerCase_def
      lower_char_def upper_letters_def lower_letters_def)

section \<open>getTokenMetrics: the retry\<close>

lemma fetch_pending: "pending (snd (fetch w u)) = tl (pending w)"
  by (simp add: fetch_def emit_def split: list.splits)

lemma fetch_trace: "trace (snd (fetch w u)) = trace w @ [Fetch u]"
  by (simp add: fetch_def emit_def split: list.splits)

lemma searchToken_pending: "pending (snd (searchToken w query)) = tl (pending w)"
  using fetch_pending[of w "DEXSCREENER_BASE @ ''/dex/search?q='' @ encodeURIComponent query"]
  by (auto simp: searchToken_def Let_def emit_def
      split: prod.splits fetch_result.splits json_body.splits)

lemma searchToken_trace:
  "\<exists>tail. trace (snd (searchToken w query)) =
     trace w @ Fetch (DEXSCREENER_BASE @ ''/dex/search?q='' @ encodeURIComponent query) # tail"
  using fetch_trace[of w "DEXSCREENER_BASE @ ''/dex/search?q='' @ encodeURIComponent query"]
  by (auto simp: searchToken_def Let_def emit_def
      split: prod.splits fetch_result.splits json_body.splits)

text \<open>
  Claim C3. Let the first search of \<^const>\<open>getTokenMetrics\<close> (for the ticker, followed by
  the chain when one is given) return a pair. If the pair's base-token symbol equals the
  ticker up to case (both upper-cased by the host's \<^verbatim>\<open>toUpperCase\<close>, whatever that
  function does outside ASCII), the projection of that pair is returned and no further
  request is made.
  Otherwise a second search, for the ticker alone, is issued next; the operation returns the
  projection of the retry's pair when its symbol matches, and absent when the retry returns
  a pair that does not match or returns nothing.
\<close>

theorem getTokenMetrics_retry:
  assumes "query = (case chain of
                      None \<Rightarrow> ticker
                    | Some c \<Rightarrow> if truthy_str c then ticker @ '' '' @ c else ticker)"
    and "searchToken w query = (Some pair, w1)"
  shows "(upper (tok_symbol (baseToken pair)) = upper ticker \<longrightarrow>
            getTokenMetrics upper parseFloat clock w ticker chain
              = (Some (pairToMetrics upper parseFloat (clock (trace w1)) pair), w1))
     \<and> (upper (tok_symbol (baseToken pair)) \<noteq> upper ticker \<longrightarrow>
          snd (getTokenMetrics upper parseFloat clock w ticker chain) = snd (searchToken w1 ticker)
          \<and> (\<exists>tail. trace (snd (getTokenMetrics upper parseFloat clock w ticker chain)) =
                trace w1 @ Fetch (DEXSCREENER_BASE @ ''/dex/search?q='' @ encodeURIComponent ticker) # tail)
          \<and> (\<forall>retryPair w2.
                searchToken w1 ticker = (Some retryPair, w2)
                  \<and> upper (tok_symbol (baseToken retryPair)) = upper ticker
                \<longrightarrow> fst (getTokenMetrics upper parseFloat clock w ticker chain)
                      = Some (pairToMetrics upper parseFloat (clock (trace w2)) retryPair))
          \<and> (\<forall>retryPair w2.
                searchToken w1 ticker = (Some retryPair, w2)
                  \<and> upper (tok_symbol (baseToken retryPair)) \<noteq> upper ticker
                \<longrightarrow> fst (getTokenMetrics upper parseFloat clock w ticker chain) = None)
          \<and> (fst (searchToken w1 ticker) = None
                \<longrightarrow> fst (getTokenMetrics upper parseFloat clock w ticker chain) = None))"
proof (cases "upper (tok_symbol (baseToken pair)) = upper ticker")
  case True
  then show ?thesis using assms by (simp add: getTokenMetrics_def)
next
  case False
  have run: "getTokenMetrics upper parseFloat clock w ticker chain =
      (case searchToken w1 ticker of
         (None, w2) \<Rightarrow> (None, w2)
       | (Some retryPair, w2) \<Rightarrow>
           if upper (tok_symbol (baseToken retryPair)) \<noteq> upper ticker
           then (None, w2)
           else (Some (pairToMetrics upper parseFloat (clock (trace w2)) retryPair), w2))"
    using assms False by (simp add: getTokenMetrics_def)
  have world: "snd (getTokenMetrics upper parseFloat clock w ticker chain) = snd (searchToken w1 ticker)"
    unfolding run by (simp split: prod.splits option.splits)
  have issued: "\<exists>tail. trace (snd (getTokenMetrics upper parseFloat clock w ticker chain)) =
      trace w1 @ Fetch (DEXSCREENER_BASE @ ''/dex/search?q='' @ encodeURIComponent ticker) # tail"
    unfolding world by (rule searchToken_trace)
  have hit: "fst (getTokenMetrics upper parseFloat clock w ticker chain)
        = Some (pairToMetrics upper parseFloat (clock (trace w2)) retryPair)"
    if "searchToken w1 ticker = (Some retryPair, w2)"
      "upper (tok_symbol (baseToken retryPair)) = upper ticker" for retryPair w2
    unfolding run using that by simp
  have miss: "fst (getTokenMetrics upper parseFloat clock w ticker chain) = None"
    if "searchToken w1 ticker = (Some retryPair, w2)"
      "upper (tok_symbol (baseToken retryPair)) \<noteq> upper ticker" for retryPair w2
    unfolding run using that by simp
  have absent: "fst (getTokenMetrics upper parseFloat clock w ticker chain) = None"
    if "fst (searchToken w1 ticker) = None"
    unfolding run using that by (cases "searchToken w1 ticker") auto
  show ?thesis using False world issued hit miss absent by blast
qed

text \<open>
  The ticker bonk on solana: the first search answers BONKINU, the retry answers BONK.
\<close>

theorem getTokenMetrics_retry_witness:
  "fst (getTokenMetrics toUpperCase unparsed sample_clock (sample_world fuzzy_then_exact) ''bonk'' (Some ''solana''))
     = Some (pairToMetrics toUpperCase unparsed 2 (sample_pair ''solana'' ''a1'' ''BONK'' (Some 2)))"
proof -
  let ?w = "sample_world fuzzy_then_exact"
  let ?w1 = "snd (searchToken ?w ''bonk solana'')"
  let ?w2 = "snd (searchToken ?w1 ''bonk'')"
  have q: "''bonk solana'' = (case Some ''solana'' of
                      None \<Rightarrow> ''bonk''
                    | Some c \<Rightarrow> if truthy_str c then ''bonk'' @ '' '' @ c else ''bonk'')"
    by (simp add: truthy_str_def)
  have first: "fst (searchToken ?w ''bonk solana'') = Some (sample_pair ''solana'' ''a9'' ''BONKINU'' (Some 9))"
    by (simp add: searchToken_ok[where rest="tl fuzzy_then_exact" and status=200] sample_world_def
        fuzzy_then_exact_def ok_def reduceBest_def higherLiquidity_same)
  have p1: "pending ?w1 = [Response 200 (Data (Some [sample_pair ''solana'' ''a1'' ''BONK'' (Some 2)]))]"
    by (simp add: searchToken_pending sample_world_def fuzzy_then_exact_def)
  have second: "fst (searchToken ?w1 ''bonk'') = Some (sample_pair ''solana'' ''a1'' ''BONK'' (Some 2))"
    by (simp add: searchToken_ok[where rest="[]" and status=200] p1 ok_def reduceBest_def
        higherLiquidity_same)
  have s1: "searchToken ?w ''bonk solana'' = (Some (sample_pair ''solana'' ''a9'' ''BONKINU'' (Some 9)), ?w1)"
    using first by (simp add: prod_eq_iff)
  have s2: "searchToken ?w1 ''bonk'' = (Some (sample_pair ''solana'' ''a1'' ''BONK'' (Some 2)), ?w2)"
    using second by (simp add: prod_eq_iff)
  have differs: "toUpperCase (tok_symbol (baseToken (sample_pair ''solana'' ''a9'' ''BONKINU'' (Some 9))))
      \<noteq> toUpperCase ''bonk''"
    by (simp add: sample_pair_def toUpperCase_def)
  have same: "toUpperCase (tok_symbol (baseToken (sample_pair ''solana'' ''a1'' ''BONK'' (Some 2))))
      = toUpperCase ''bonk''"
    by (simp add: sample_pair_def toUpperCase_def upper_char_def lower_letters_def upper_letters_def)
  have len: "sample_clock (trace ?w2) = 2"
    by (simp add: sample_clock_def searchToken_def fetch_def emit_def sample_world_def
        fuzzy_then_exact_def ok_def pairs_of_def Let_def)
  show ?thesis
    using getTokenMetrics_retry[OF q s1, where upper=toUpperCase and parseFloat=unparsed
        and clock=sample_clock] differs same s2 len by simp
qed

section \<open>getTokensByAddresses: chunks\<close>

lemma ceil_step:
  fixes m :: nat
  assumes "0 < m"
  shows "(m + 29) div 30 = Suc ((m - 30 + 29) div 30)"
proof (cases "30 \<le> m")
  case True
  then have "m + 29 = (m - 30 + 29) + 30" by simp
  then have "(m + 29) div 30 = ((m - 30 + 29) + 30) div 30" by simp
  also have "\<dots> = Suc ((m - 30 + 29) div 30)" by simp
  finally show ?thesis .
next
  case False
  then have "m - 30 = 0" by simp
  moreover have "(m + 29) div 30 = 1"
    using assms False by (intro div_nat_eqI) simp_all
  ultimately show ?thesis by simp
qed

lemma ceil_bound:
  fixes k n :: nat
  assumes "k < (n + 29) div 30"
  shows "30 * k < n"
proof -
  have "Suc k \<le> (n + 29) div 30" using assms by simp
  then have "Suc k * 30 \<le> n + 29" by (simp only: less_eq_div_iff_mult_less_eq) 
  then show ?thesis by simp
qed

lemma make_batches_concat: "concat (make_batches addresses i batches) = concat batches @ drop i addresses"
proof (induction addresses i batches rule: make_batches.induct)
  case (1 addresses i batches)
  show ?case
  proof (cases "i < length addresses")
    case True
    have "take BATCH_SIZE (drop i addresses) @ drop (i + BATCH_SIZE) addresses = drop i addresses"
      by (metis add.commute append_take_drop_id drop_drop)
    then show ?thesis using True 1
      by (subst make_batches.simps) (simp add: slice_def)
  next
    case False
    then show ?thesis by (subst make_batches.simps) simp
  qed
qed

lemma make_batches_nth:
  "make_batches addresses i batches =
     batches @ map (\<lambda>k. take BATCH_SIZE (drop (i + BATCH_SIZE * k) addresses))
                   [0..<(length addresses - i + (BATCH_SIZE - 1)) div BATCH_SIZE]"
proof (induction addresses i batches rule: make_batches.induct)
  case (1 addresses i batches)
  let ?f = "\<lambda>k. take BATCH_SIZE (drop (i + BATCH_SIZE * k) addresses)"
  let ?g = "\<lambda>k. take BATCH_SIZE (drop (i + BATCH_SIZE + BATCH_SIZE * k) addresses)"
  let ?m = "(length addresses - (i + BATCH_SIZE) + (BATCH_SIZE - 1)) div BATCH_SIZE"
  show ?case
  proof (cases "i < length addresses")
    case True
    have n: "(length addresses - i + (BATCH_SIZE - 1)) div BATCH_SIZE = Suc ?m"
      using True ceil_step[of "length addresses - i"] by (simp add: BATCH_SIZE_def)
    have g: "?g = (\<lambda>k. ?f (Suc k))" by (simp add: add.assoc)
    have "make_batches addresses i batches =
        make_batches addresses (i + BATCH_SIZE) (batches @ [slice addresses i (i + BATCH_SIZE)])"
      using True by (subst make_batches.simps) simp
    also have "\<dots> = (batches @ [slice addresses i (i + BATCH_SIZE)]) @ map ?g [0..<?m]"
      by (rule 1[OF True])
    also have "\<dots> = batches @ (?f 0 # map (\<lambda>k. ?f (Suc k)) [0..<?m])"
      unfolding g by (simp add: slice_def)
    also have "\<dots> = batches @ map ?f [0..<Suc ?m]"
      by (simp only: map_upt_Suc)
    finally show ?thesis unfolding n .
  next
    case False
    then show ?thesis by (subst make_batches.simps) (simp add: BATCH_SIZE_def)
  qed
qed

lemma batches_length:
  "length (make_batches addresses 0 []) = (length addresses + 29) div 30"
  by (simp add: make_batches_nth BATCH_SIZE_def)

lemma batches_nth:
  "k < length (make_batches addresses 0 []) \<Longrightarrow>
     make_batches addresses 0 [] ! k = take 30 (drop (30 * k) addresses)"
  by (simp add: make_batches_nth BATCH_SIZE_def)

lemma batches_nth_length:
  assumes "k < length (make_batches addresses 0 [])"
  shows "0 < length (make_batches addresses 0 [] ! k) \<and> length (make_batches addresses 0 [] ! k) \<le> 30"
proof -
  have "k < (length addresses + 29) div 30" using assms by (simp add: batches_length)
  then have "30 * k < length addresses" by (rule ceil_bound)
  then show ?thesis using batches_nth[OF assms] by simp
qed

lemma batches_65:
  assumes "length addresses = 65"
  shows "map length (make_batches addresses 0 []) = [30, 30, 5]"
proof -
  have "[0..<3] = [0, 1, 2]" by code_simp
  then show ?thesis using assms by (simp add: make_batches_nth BATCH_SIZE_def)
qed


section \<open>getTokensByAddresses: the loop over the batches\<close>

lemma fetch_fst: "fst (fetch w u) = nth_response (pending w) 0"
  by (simp add: fetch_def nth_response_def split: list.splits)

lemma nth_response_tl: "nth_response (tl rs) k = nth_response rs (Suc k)"
  by (cases rs) (simp_all add: nth_response_def)

lemma set_best_map:
  "map_of (set_best results entry) =
     (case reduceBest (snd entry) of
        None \<Rightarrow> map_of results
      | Some b \<Rightarrow> (map_of results)(fst entry \<mapsto> b))"
  by (cases entry) (simp add: set_best_def update_conv' split: option.splits)

lemma foldl_set_best_map:
  "map_of (foldl set_best results entries) = map_of results ++ map_of (foldl set_best [] entries)"
proof (induction entries rule: rev_induct)
  case Nil
  show ?case by simp
next
  case (snoc e es)
  show ?case
    by (cases "reduceBest (snd e)")
       (auto simp: set_best_map snoc map_add_def fun_eq_iff split: option.splits)
qed

lemma process_batch_unfold:
  "process_batch normalizedChain several results w batch =
     (case fetch w (batch_url batch) of
        (Rejected, w1) \<Rightarrow> (results, emit (ConsoleError ''DexScreener batch fetch error:'') w1)
      | (Response status body, w1) \<Rightarrow>
          if \<not> ok status then (results, w1)
          else (case body of
                  Unparseable \<Rightarrow>
                    (results, emit (ConsoleError ''DexScreener batch fetch error:'') w1)
                | Data d \<Rightarrow>
                    (foldl set_best results (foldl (group_step normalizedChain) [] (pairs_of d)),
                     if several then emit (Sleep 100) w1 else w1)))"
  unfolding process_batch_def batch_url_def Let_def by (rule refl)

lemma process_batch_results:
  "fst (process_batch nc several results w batch) =
     foldl set_best results
       (foldl (group_step nc) [] (returned_pairs (nth_response (pending w) 0)))"
proof -
  obtain r w1 where f: "fetch w (batch_url batch) = (r, w1)"
    by (cases "fetch w (batch_url batch)")
  then have r: "nth_response (pending w) 0 = r"
    using fetch_fst[of w "batch_url batch"] by simp
  show ?thesis
    unfolding r
    by (simp add: process_batch_unfold f returned_pairs_def
        split: fetch_result.splits json_body.splits)
qed

lemma process_batch_pending:
  "pending (snd (process_batch nc several results w batch)) = tl (pending w)"
proof -
  obtain r w1 where f: "fetch w (batch_url batch) = (r, w1)"
    by (cases "fetch w (batch_url batch)")
  then have p: "pending w1 = tl (pending w)"
    using fetch_pending[of w "batch_url batch"] by simp
  show ?thesis
    by (simp add: process_batch_unfold f p emit_def
        split: fetch_result.splits json_body.splits)
qed

lemma batch_trace_eq:
  "batch_trace several batch r =
     Fetch (batch_url batch) #
       (case r of
          Rejected \<Rightarrow> [ConsoleError ''DexScreener batch fetch error:'']
        | Response status body \<Rightarrow>
            if \<not> ok status then []
            else (case body of
                    Unparseable \<Rightarrow> [ConsoleError ''DexScreener batch fetch error:'']
                  | Data d \<Rightarrow> if several then [Sleep 100] else []))"
  by (simp add: batch_trace_def process_batch_unfold fetch_def emit_def
      split: fetch_result.splits json_body.splits)

lemma process_batch_trace:
  "trace (snd (process_batch nc several results w batch)) =
     trace w @ batch_trace several batch (nth_response (pending w) 0)"
proof -
  obtain r w1 where f: "fetch w (batch_url batch) = (r, w1)"
    by (cases "fetch w (batch_url batch)")
  then have r: "nth_response (pending w) 0 = r"
    using fetch_fst[of w "batch_url batch"] by simp
  have t: "trace w1 = trace w @ [Fetch (batch_url batch)]"
    using f fetch_trace[of w "batch_url batch"] by simp
  show ?thesis
    unfolding r batch_trace_eq
    by (simp add: process_batch_unfold f t emit_def
        split: fetch_result.splits json_body.splits)
qed

lemma batch_loop_results:
  "map_of (fst (batch_loop nc several results w batches)) =
     foldl (++) (map_of results)
       (map (\<lambda>k. map_of (batch_best nc (nth_response (pending w) k))) [0..<length batches])"
proof (induction batches arbitrary: results w)
  case Nil
  show ?case by simp
next
  case (Cons b bs)
  obtain results' w' where pb: "process_batch nc several results w b = (results', w')"
    by (cases "process_batch nc several results w b")
  have res: "map_of results' = map_of results ++ map_of (batch_best nc (nth_response (pending w) 0))"
    using process_batch_results[of nc several results w b] pb
      foldl_set_best_map[of results "foldl (group_step nc) [] (returned_pairs (nth_response (pending w) 0))"]
    by (simp add: batch_best_def)
  have pend: "pending w' = tl (pending w)"
    using process_batch_pending[of nc several results w b] pb by simp
  have "map_of (fst (batch_loop nc several results w (b # bs))) =
      map_of (fst (batch_loop nc several results' w' bs))"
    by (simp add: pb)
  also have "\<dots> = foldl (++) (map_of results')
       (map (\<lambda>k. map_of (batch_best nc (nth_response (pending w') k))) [0..<length bs])"
    by (rule Cons.IH)
  also have "\<dots> = foldl (++) (map_of results)
       (map (\<lambda>k. map_of (batch_best nc (nth_response (pending w) k))) [0..<Suc (length bs)])"
    by (simp only: map_upt_Suc res pend nth_response_tl foldl.simps)
  finally show ?case by simp
qed

lemma batch_loop_trace:
  "trace (snd (batch_loop nc several results w batches)) =
     trace w @ concat (map (\<lambda>k. batch_trace several (batches ! k) (nth_response (pending w) k))
                          [0..<length batches])"
proof (induction batches arbitrary: results w)
  case Nil
  show ?case by simp
next
  case (Cons b bs)
  obtain results' w' where pb: "process_batch nc several results w b = (results', w')"
    by (cases "process_batch nc several results w b")
  have tr: "trace w' = trace w @ batch_trace several b (nth_response (pending w) 0)"
    using process_batch_trace[of nc several results w b] pb by simp
  have pend: "pending w' = tl (pending w)"
    using process_batch_pending[of nc several results w b] pb by simp
  have "trace (snd (batch_loop nc several results w (b # bs))) =
      trace (snd (batch_loop nc several results' w' bs))"
    by (simp add: pb)
  also have "\<dots> = trace w' @ concat (map (\<lambda>k. batch_trace several (bs ! k) (nth_response (pending w') k))
                          [0..<length bs])"
    by (rule Cons.IH)
  also have "\<dots> = trace w @ concat (map (\<lambda>k. batch_trace several ((b # bs) ! k) (nth_response (pending w) k))
                          [0..<Suc (length bs)])"
    by (simp only: map_upt_Suc tr pend nth_response_tl concat.simps nth_Cons_0 nth_Cons_Suc append_assoc)
  finally show ?case by simp
qed

lemma getTokensByAddresses_loop:
  "getTokensByAddresses w addresses chainFilter =
     batch_loop
       (case chainFilter of
          None \<Rightarrow> None
        | Some c \<Rightarrow> if truthy_str c then Some (normalizeChain c) else None)
       (length (make_batches addresses 0 []) > 1) [] w (make_batches addresses 0 [])"
proof (cases "addresses = []")
  case True
  then have "make_batches addresses 0 [] = []" by (simp add: make_batches_nth BATCH_SIZE_def)
  then show ?thesis using True by (simp add: getTokensByAddresses_def)
next
  case False
  then show ?thesis by (simp add: getTokensByAddresses_def Let_def)
qed

lemma fetched_append: "fetched (xs @ ys) = fetched xs @ fetched ys"
  by (induction xs rule: fetched.induct) simp_all

lemma fetched_concat: "fetched (concat xss) = concat (map fetched xss)"
  by (induction xss) (simp_all add: fetched_append)

lemma fetched_batch_trace: "fetched (batch_trace several batch r) = [batch_url batch]"
  by (simp add: batch_trace_eq split: fetch_result.splits json_body.splits)

lemma concat_singletons: "concat (map (\<lambda>k. [f k]) ks) = map f ks"
  by (induction ks) simp_all

lemma batch_loop_fetched:
  "fetched (trace (snd (batch_loop nc several results w batches))) =
     fetched (trace w) @ map batch_url batches"
proof -
  have "map (\<lambda>k. batch_url (batches ! k)) [0..<length batches] = map batch_url batches"
    by (rule nth_equalityI) simp_all
  then show ?thesis
    by (simp add: batch_loop_trace fetched_append fetched_concat comp_def fetched_batch_trace
        concat_singletons)
qed

lemma dom_foldl_map_add:
  "dom (foldl (++) m ms) = dom m \<union> (\<Union>n\<in>set ms. dom n)"
  by (induction ms arbitrary: m) auto

lemma foldl_map_add_Some:
  "foldl (++) m ms a = Some p \<Longrightarrow> m a = Some p \<or> (\<exists>n\<in>set ms. n a = Some p)"
proof (induction ms arbitrary: m)
  case Nil
  then show ?case by simp
next
  case (Cons n ms)
  from Cons.IH[OF Cons.prems[simplified]] show ?case
    by (auto simp: map_add_def split: option.splits)
qed

lemma batch_best_failed: "\<not> succeeded r \<Longrightarrow> batch_best nc r = []"
  by (simp add: succeeded_def batch_best_def returned_pairs_def
      split: fetch_result.splits json_body.splits)

section \<open>getTokensByAddresses: grouping\<close>

lemma set_update_subset: "set (AList.update k v al) \<subseteq> insert (k, v) (set al)"
  by (induction al) auto

lemma groups_ok_step:
  assumes "groups_ok nc S groups" and "p \<in> S"
  shows "groups_ok nc S (group_step nc groups p)"
proof (cases "other_chain nc p")
  case True
  then show ?thesis using assms(1) by (simp add: group_step_def)
next
  case False
  define addr where "addr = tok_address (baseToken p)"
  define existing where
    "existing = (case map_of groups addr of None \<Rightarrow> [] | Some ps \<Rightarrow> ps)"
  have ex: "q \<in> S \<and> \<not> other_chain nc q \<and> tok_address (baseToken q) = addr"
    if "q \<in> set existing" for q
  proof (cases "map_of groups addr")
    case None
    then show ?thesis using that by (simp add: existing_def)
  next
    case (Some ps)
    then have "(addr, ps) \<in> set groups" by (rule map_of_SomeD)
    moreover have "q \<in> set ps" using that Some by (simp add: existing_def)
    ultimately show ?thesis using assms(1) unfolding groups_ok_def by blast
  qed
  have step: "group_step nc groups p = AList.update addr (existing @ [p]) groups"
    using False by (simp add: group_step_def Let_def addr_def existing_def)
  show ?thesis
    unfolding step groups_ok_def
  proof (intro allI impI)
    fix a ps
    assume "(a, ps) \<in> set (AList.update addr (existing @ [p]) groups)"
    then have "(a, ps) = (addr, existing @ [p]) \<or> (a, ps) \<in> set groups"
      using set_update_subset[of addr "existing @ [p]" groups] by blast
    then show "ps \<noteq> [] \<and> (\<forall>q\<in>set ps. q \<in> S \<and> \<not> other_chain nc q \<and> tok_address (baseToken q) = a)"
    proof
      assume new: "(a, ps) = (addr, existing @ [p])"
      have "q \<in> S \<and> \<not> other_chain nc q \<and> tok_address (baseToken q) = a" if "q \<in> set ps" for q
      proof (cases "q = p")
        case True
        then show ?thesis using False assms(2) new by (simp add: addr_def)
      next
        case False
        then have "q \<in> set existing" using that new by simp
        then show ?thesis using ex new by simp
      qed
      then show ?thesis using new by simp
    next
      assume "(a, ps) \<in> set groups"
      then show ?thesis using assms(1) unfolding groups_ok_def by blast
    qed
  qed
qed

lemma groups_ok_foldl:
  assumes "groups_ok nc S groups" and "set pairs \<subseteq> S"
  shows "groups_ok nc S (foldl (group_step nc) groups pairs)"
  using assms
proof (induction pairs arbitrary: groups)
  case Nil
  then show ?case by simp
next
  case (Cons p ps)
  then show ?case using groups_ok_step[of nc S groups p] by simp
qed

lemma foldl_set_best_Some:
  assumes "map_of (foldl set_best results groups) a = Some p"
  shows "map_of results a = Some p \<or> (\<exists>ps. (a, ps) \<in> set groups \<and> reduceBest ps = Some p)"
  using assms
proof (induction groups rule: rev_induct)
  case Nil
  then show ?case by simp
next
  case (snoc e es)
  obtain a' ps' where e: "e = (a', ps')" by (cases e)
  show ?case
  proof (cases "reduceBest ps'")
    case None
    then show ?thesis using snoc e by (auto simp: set_best_map)
  next
    case (Some b)
    show ?thesis
    proof (cases "a = a'")
      case True
      then have "p = b" using snoc.prems e Some by (simp add: set_best_map)
      then show ?thesis using True e Some by auto
    next
      case False
      then have "map_of (foldl set_best results es) a = Some p"
        using snoc.prems e Some by (simp add: set_best_map)
      then show ?thesis using snoc.IH by auto
    qed
  qed
qed

lemma reduceBest_in_set: "reduceBest ps = Some b \<Longrightarrow> b \<in> set ps"
proof -
  assume h: "reduceBest ps = Some b"
  then have "ps \<noteq> []" by (auto simp: reduceBest_def)
  from reduceBest_Some[OF this] h show ?thesis by auto
qed

lemma batch_best_Some:
  assumes "map_of (batch_best nc r) a = Some p"
  shows "p \<in> set (returned_pairs r) \<and> \<not> other_chain nc p \<and> tok_address (baseToken p) = a"
proof -
  let ?groups = "foldl (group_step nc) [] (returned_pairs r)"
  have ok: "groups_ok nc (set (returned_pairs r)) ?groups"
    by (rule groups_ok_foldl) (simp_all add: groups_ok_def)
  from assms obtain ps where ps: "(a, ps) \<in> set ?groups" "reduceBest ps = Some p"
    using foldl_set_best_Some[of "[]" ?groups a p] by (auto simp: batch_best_def)
  have "p \<in> set ps" by (rule reduceBest_in_set[OF ps(2)])
  then show ?thesis using ok ps(1) unfolding groups_ok_def by blast
qed

section \<open>getTokensByAddresses: the claims\<close>

lemma join_commas:
  "join b = (case b of [] \<Rightarrow> [] | a # rest \<Rightarrow> a @ concat (map (\<lambda>x. '','' @ x) rest))"
  by (induction b rule: join.induct) simp_all

lemma join_length:
  "length (join b) = sum_list (map length b) + (length b - 1)"
  by (induction b rule: join.induct) simp_all

text \<open>
  Claim C4. \<^const>\<open>getTokensByAddresses\<close> cuts the address list into consecutive chunks:
  chunk \<open>k\<close> holds the addresses from position \<open>30 * k\<close> on, at most 30 and at least one
  of them, and the chunks together are the list (65 addresses give chunks of 30, 30 and 5).
  The requests issued are exactly one per chunk, in order, each for the tokens URL followed
  by the chunk's addresses joined with commas: the first address, then a comma and the
  address for every further one. The returned map is what the chunks'
  responses contribute, applied in order: a chunk whose request fails contributes nothing,
  and every address a successful chunk has a best pair for is a key of the returned map.
\<close>

theorem getTokensByAddresses_chunks:
  assumes "batches = make_batches addresses 0 []"
    and "normalizedChain =
           (case chainFilter of
              None \<Rightarrow> None
            | Some c \<Rightarrow> if truthy_str c then Some (normalizeChain c) else None)"
    and "getTokensByAddresses w addresses chainFilter = (results, w')"
  shows "concat batches = addresses
     \<and> (\<forall>k<length batches. batches ! k = take 30 (drop (30 * k) addresses)
            \<and> 0 < length (batches ! k) \<and> length (batches ! k) \<le> 30)
     \<and> (length addresses = 65 \<longrightarrow> map length batches = [30, 30, 5])
     \<and> fetched (trace w') = fetched (trace w) @ map batch_url batches
     \<and> (\<forall>b. batch_url b =
            DEXSCREENER_BASE @ ''/dex/tokens/''
              @ (case b of [] \<Rightarrow> [] | a # rest \<Rightarrow> a @ concat (map (\<lambda>x. '','' @ x) rest)))
     \<and> map_of results =
          foldl (++) Map.empty
            (map (\<lambda>k. map_of (batch_best normalizedChain (nth_response (pending w) k)))
                 [0..<length batches])
     \<and> (\<forall>k<length batches. \<not> succeeded (nth_response (pending w) k) \<longrightarrow>
            batch_best normalizedChain (nth_response (pending w) k) = [])
     \<and> (\<forall>k<length batches.
            dom (map_of (batch_best normalizedChain (nth_response (pending w) k)))
              \<subseteq> dom (map_of results))"
proof -
  have run: "batch_loop normalizedChain (length batches > 1) [] w batches = (results, w')"
    using assms getTokensByAddresses_loop[of w addresses chainFilter] by simp
  have c1: "concat batches = addresses"
    using make_batches_concat[of addresses 0 "[]"] assms(1) by simp
  have c2: "\<forall>k<length batches. batches ! k = take 30 (drop (30 * k) addresses)
            \<and> 0 < length (batches ! k) \<and> length (batches ! k) \<le> 30"
    using batches_nth batches_nth_length unfolding assms(1) by blast
  have c3: "length addresses = 65 \<longrightarrow> map length batches = [30, 30, 5]"
    using batches_65 unfolding assms(1) by blast
  have c4: "fetched (trace w') = fetched (trace w) @ map batch_url batches"
    using batch_loop_fetched[of normalizedChain "length batches > 1" "[]" w batches] run by simp
  have c5: "\<forall>b. batch_url b =
            DEXSCREENER_BASE @ ''/dex/tokens/''
              @ (case b of [] \<Rightarrow> [] | a # rest \<Rightarrow> a @ concat (map (\<lambda>x. '','' @ x) rest))"
    by (simp add: batch_url_def join_commas)
  have c6: "map_of results =
          foldl (++) Map.empty
            (map (\<lambda>k. map_of (batch_best normalizedChain (nth_response (pending w) k)))
                 [0..<length batches])"
    using batch_loop_results[of normalizedChain "length batches > 1" "[]" w batches] run by simp
  have c7: "\<forall>k<length batches. \<not> succeeded (nth_response (pending w) k) \<longrightarrow>
            batch_best normalizedChain (nth_response (pending w) k) = []"
    using batch_best_failed by blast
  have c8: "\<forall>k<length batches.
            dom (map_of (batch_best normalizedChain (nth_response (pending w) k)))
              \<subseteq> dom (map_of results)"
    unfolding c6 dom_foldl_map_add by auto
  show ?thesis using c1 c2 c3 c4 c5 c6 c7 c8 by blast
qed

text \<open>
  Sixty-five addresses with a failing second chunk: three requests, the third for the five
  addresses of the last chunk joined with commas, and the results of the first and the third
  chunk are in the map. Three addresses: one request, for the three of them.
\<close>

theorem getTokensByAddresses_chunks_witness:
  "map length (make_batches addresses_65 0 []) = [30, 30, 5]
   \<and> length (fetched (trace (snd (getTokensByAddresses (sample_world second_fails) addresses_65 None)))) = 3
   \<and> fetched (trace (snd (getTokensByAddresses (sample_world second_fails) addresses_65 None))) ! 2
       = ''https://api.dexscreener.com/latest/dex/tokens/c,c,c,c,c''
   \<and> dom (map_of (fst (getTokensByAddresses (sample_world second_fails) addresses_65 None)))
       = {''a'', ''c''}
   \<and> fetched (trace (snd (getTokensByAddresses (sample_world second_fails) [''a1'', ''b2'', ''c3''] None)))
       = [''https://api.dexscreener.com/latest/dex/tokens/a1,b2,c3'']"
proof -
  obtain results w' where run:
    "getTokensByAddresses (sample_world second_fails) addresses_65 None = (results, w')"
    by (cases "getTokensByAddresses (sample_world second_fails) addresses_65 None")
  note chunks = getTokensByAddresses_chunks[OF refl refl run]
  have len: "length addresses_65 = 65" by (simp add: addresses_65_def)
  have l: "map length (make_batches addresses_65 0 []) = [30, 30, 5]" using chunks len by blast
  have n: "length (make_batches addresses_65 0 []) = 3" by (simp add: batches_length len)
  have f: "length (fetched (trace w')) = 3"
    using chunks n by (simp add: sample_world_def)
  have up: "[0..<3] = [0, 1, 2]" by code_simp
  have "make_batches addresses_65 0 [] ! 2 = take 30 (drop (30 * 2) addresses_65)"
    by (rule batches_nth) (simp add: n)
  then have third: "make_batches addresses_65 0 [] ! 2 = [''c'', ''c'', ''c'', ''c'', ''c'']"
    by (simp add: addresses_65_def) code_simp
  have "fetched (trace w') ! 2 = batch_url (make_batches addresses_65 0 [] ! 2)"
    using chunks n by (simp add: sample_world_def)
  also have "\<dots> = DEXSCREENER_BASE @ ''/dex/tokens/''
       @ (case [''c'', ''c'', ''c'', ''c'', ''c''] of
            [] \<Rightarrow> [] | a # rest \<Rightarrow> a @ concat (map (\<lambda>x. '','' @ x) rest))"
    using chunks unfolding third by blast
  finally have u: "fetched (trace w') ! 2 = ''https://api.dexscreener.com/latest/dex/tokens/c,c,c,c,c''"
    by (simp add: DEXSCREENER_BASE_def)
  have b0: "map_of (batch_best None (one_pair_response a)) = [a \<mapsto> sample_pair ''solana'' a ''BONK'' (Some 1)]" for a
    by (simp add: batch_best_def returned_pairs_def one_pair_response_def ok_def pairs_of_def
        group_step_def other_chain_def set_best_def reduceBest_def higherLiquidity_same update_conv')
      (simp add: sample_pair_def)
  have b1: "batch_best None (Response 500 Unparseable) = []"
    by (simp add: batch_best_def returned_pairs_def ok_def)
  have "map_of results = foldl (++) Map.empty
            (map (\<lambda>k. map_of (batch_best None (nth_response (pending (sample_world second_fails)) k)))
                 [0..<length (make_batches addresses_65 0 [])])"
    using chunks by simp
  then have "map_of results = [''a'' \<mapsto> sample_pair ''solana'' ''a'' ''BONK'' (Some 1)] ++ [''c'' \<mapsto> sample_pair ''solana'' ''c'' ''BONK'' (Some 1)]"
    by (simp add: n up sample_world_def second_fails_def nth_response_def b0 b1)
  then have d: "dom (map_of results) = {''a'', ''c''}" by auto
  obtain results3 w3 where run3:
    "getTokensByAddresses (sample_world second_fails) [''a1'', ''b2'', ''c3''] None = (results3, w3)"
    by (cases "getTokensByAddresses (sample_world second_fails) [''a1'', ''b2'', ''c3''] None")
  note small = getTokensByAddresses_chunks[OF refl refl run3]
  have one: "make_batches [''a1'', ''b2'', ''c3''] 0 [] = [[''a1'', ''b2'', ''c3'']]"
    by (simp add: make_batches_nth BATCH_SIZE_def)
  have "fetched (trace w3) = [batch_url [''a1'', ''b2'', ''c3'']]"
    using small unfolding one by (simp add: sample_world_def)
  also have "batch_url [''a1'', ''b2'', ''c3''] = DEXSCREENER_BASE @ ''/dex/tokens/''
       @ (case [''a1'', ''b2'', ''c3''] of
            [] \<Rightarrow> [] | a # rest \<Rightarrow> a @ concat (map (\<lambda>x. '','' @ x) rest))"
    using small by blast
  finally have u3: "fetched (trace w3) = [''https://api.dexscreener.com/latest/dex/tokens/a1,b2,c3'']"
    by (simp add: DEXSCREENER_BASE_def)
  show ?thesis using l f u d u3 run run3 by simp
qed

text \<open>
  Claim C8. With a non-empty chain filter, every pair in the map returned by
  \<^const>\<open>getTokensByAddresses\<close> is a returned pair on the normalized chain, stored under
  its own base-token address; an address all of whose returned pairs are on other chains
  has no entry: there is no fallback to another chain.
\<close>

theorem getTokensByAddresses_chain_filter:
  assumes "c \<noteq> []" and "batches = make_batches addresses 0 []"
  shows "(\<forall>a p. map_of (fst (getTokensByAddresses w addresses (Some c))) a = Some p \<longrightarrow>
            chainId p = normalizeChain c \<and> tok_address (baseToken p) = a
            \<and> (\<exists>k<length batches. p \<in> set (returned_pairs (nth_response (pending w) k))))
     \<and> (\<forall>a. (\<forall>k<length batches. \<forall>p\<in>set (returned_pairs (nth_response (pending w) k)).
                 tok_address (baseToken p) = a \<longrightarrow> chainId p \<noteq> normalizeChain c)
            \<longrightarrow> map_of (fst (getTokensByAddresses w addresses (Some c))) a = None)"
proof -
  let ?nc = "Some (normalizeChain c)"
  let ?results = "fst (getTokensByAddresses w addresses (Some c))"
  have results: "map_of ?results =
      foldl (++) Map.empty
        (map (\<lambda>k. map_of (batch_best ?nc (nth_response (pending w) k))) [0..<length batches])"
    using assms
    by (simp add: getTokensByAddresses_loop batch_loop_results truthy_str_def)
  have kept: "chainId p = normalizeChain c \<and> tok_address (baseToken p) = a
            \<and> (\<exists>k<length batches. p \<in> set (returned_pairs (nth_response (pending w) k)))"
    if "map_of ?results a = Some p" for a p
  proof -
    from that have "foldl (++) Map.empty
        (map (\<lambda>k. map_of (batch_best ?nc (nth_response (pending w) k))) [0..<length batches]) a
        = Some p"
      unfolding results .
    from foldl_map_add_Some[OF this] obtain n where
      n: "n \<in> set (map (\<lambda>k. map_of (batch_best ?nc (nth_response (pending w) k))) [0..<length batches])"
        "n a = Some p"
      by auto
    then obtain k where k: "k < length batches"
        "map_of (batch_best ?nc (nth_response (pending w) k)) a = Some p"
      by auto
    from batch_best_Some[OF k(2)]
    have "p \<in> set (returned_pairs (nth_response (pending w) k))" "\<not> other_chain ?nc p"
      "tok_address (baseToken p) = a" by simp_all
    moreover have "chainId p = normalizeChain c"
      using \<open>\<not> other_chain ?nc p\<close> normalizeChain_nonempty[OF assms(1)]
      by (simp add: other_chain_def truthy_str_def)
    ultimately show ?thesis using k(1) by blast
  qed
  have absent: "map_of ?results a = None"
    if "\<forall>k<length batches. \<forall>p\<in>set (returned_pairs (nth_response (pending w) k)).
                 tok_address (baseToken p) = a \<longrightarrow> chainId p \<noteq> normalizeChain c" for a
  proof (cases "map_of ?results a")
    case None
    then show ?thesis .
  next
    case (Some p)
    from kept[OF Some] that show ?thesis by blast
  qed
  show ?thesis using kept absent by blast
qed

text \<open>
  With the filter SOL, the address b, whose only pair is on ethereum, is absent.
\<close>

theorem getTokensByAddresses_chain_filter_witness:
  "map_of (fst (getTokensByAddresses (sample_world mixed_chains) [''a'', ''b''] (Some ''SOL''))) ''b''
     = None"
proof -
  have n: "normalizeChain ''SOL'' = ''solana''"
    by (simp add: normalizeChain_def CHAIN_MAP_def toUpperCase_def upper_char_def lower_letters_def
        upper_letters_def truthy_str_def)
  have one: "length (make_batches [''a'', ''b''] 0 []) = 1" by (simp add: batches_length)
  have other: "\<forall>k<length (make_batches [''a'', ''b''] 0 []).
      \<forall>p\<in>set (returned_pairs (nth_response (pending (sample_world mixed_chains)) k)).
         tok_address (baseToken p) = ''b'' \<longrightarrow> chainId p \<noteq> normalizeChain ''SOL''"
    by (simp add: one n sample_world_def mixed_chains_def nth_response_def returned_pairs_def ok_def
        pairs_of_def sample_pair_def)
  have ne: "''SOL'' \<noteq> []" by simp
  show ?thesis
    using getTokensByAddresses_chain_filter[OF ne refl, of "sample_world mixed_chains" "[''a'', ''b'']"]
      other by blast
qed

text \<open>
  Claim C2 as stated fails: it allows a pause only between two chunk requests. With 31
  addresses (two chunks) and two successful responses, a pause follows the last chunk too.
\<close>

theorem getTokensByAddresses_pause_counterexample:
  "make_batches addresses_31 0 [] = [replicate 30 ''a'', [''b'']]
   \<and> trace (snd (getTokensByAddresses (sample_world two_empty) addresses_31 None))
       = [Fetch (batch_url (replicate 30 ''a'')), Sleep 100, Fetch (batch_url [''b'']), Sleep 100]"
proof -
  have up: "[0..<2] = [0, 1]" by code_simp
  have b: "make_batches addresses_31 0 [] = [replicate 30 ''a'', [''b'']]"
    by (simp add: make_batches_nth BATCH_SIZE_def addresses_31_def up)
  have "trace (snd (getTokensByAddresses (sample_world two_empty) addresses_31 None)) =
      trace (sample_world two_empty) @
      concat (map (\<lambda>k. batch_trace (1 < length (make_batches addresses_31 0 []))
                           (make_batches addresses_31 0 [] ! k)
                           (nth_response (pending (sample_world two_empty)) k))
                  [0..<length (make_batches addresses_31 0 [])])"
    unfolding getTokensByAddresses_loop by (rule batch_loop_trace)
  then show ?thesis
    by (simp add: b up sample_world_def two_empty_def nth_response_def batch_trace_eq ok_def)
qed

text \<open>
  Claim C2, amended. The effects of a call are one block per chunk, in the order of the
  chunks; each block starts with the chunk's request and holds no other request. When the
  input makes more than one chunk, the block of every chunk whose request succeeds is the
  request followed by one pause of 100 ms, the last chunk included. When the input makes a
  single chunk, no pause occurs.
\<close>

theorem getTokensByAddresses_pauses:
  assumes "batches = make_batches addresses 0 []"
  shows "\<exists>blocks. length blocks = length batches
     \<and> trace (snd (getTokensByAddresses w addresses chainFilter)) = trace w @ concat blocks
     \<and> (\<forall>k<length batches. \<exists>tail.
            blocks ! k = Fetch (batch_url (batches ! k)) # tail
            \<and> fetched tail = []
            \<and> (1 < length batches \<and> succeeded (nth_response (pending w) k) \<longrightarrow> tail = [Sleep 100])
            \<and> (length batches \<le> 1 \<longrightarrow> (\<forall>ms. Sleep ms \<notin> set tail)))"
proof -
  let ?several = "1 < length batches"
  let ?block = "\<lambda>k. batch_trace ?several (batches ! k) (nth_response (pending w) k)"
  let ?blocks = "map ?block [0..<length batches]"
  have tr: "trace (snd (getTokensByAddresses w addresses chainFilter)) = trace w @ concat ?blocks"
    using assms by (simp add: getTokensByAddresses_loop batch_loop_trace)
  have each: "\<exists>tail. ?blocks ! k = Fetch (batch_url (batches ! k)) # tail
            \<and> fetched tail = []
            \<and> (?several \<and> succeeded (nth_response (pending w) k) \<longrightarrow> tail = [Sleep 100])
            \<and> (length batches \<le> 1 \<longrightarrow> (\<forall>ms. Sleep ms \<notin> set tail))"
    if "k < length batches" for k
  proof -
    have "?blocks ! k = ?block k" using that by simp
    then show ?thesis
      by (auto simp: batch_trace_eq succeeded_def split: fetch_result.splits json_body.splits)
  qed
  have "length ?blocks = length batches" by simp
  then show ?thesis using tr each by blast
qed

text \<open>
  A single chunk: the request and nothing else. Three chunks: the first, successful chunk is
  its request and a pause.
\<close>

theorem getTokensByAddresses_pauses_witness:
  "trace (snd (getTokensByAddresses (sample_world second_fails) [''a''] None))
     = [Fetch (batch_url [''a''])]
   \<and> take 2 (trace (snd (getTokensByAddresses (sample_world second_fails) addresses_65 None)))
     = [Fetch (batch_url (replicate 30 ''a'')), Sleep 100]"
proof -
  have single: "trace (snd (getTokensByAddresses (sample_world second_fails) [''a''] None))
     = [Fetch (batch_url [''a''])]"
  proof -
    have one: "make_batches [''a''] 0 [] = [[''a'']]"
      by (simp add: make_batches_nth BATCH_SIZE_def)
    obtain blocks where blocks: "length blocks = length (make_batches [''a''] 0 [])"
      "trace (snd (getTokensByAddresses (sample_world second_fails) [''a''] None))
         = trace (sample_world second_fails) @ concat blocks"
      "\<forall>k<length (make_batches [''a''] 0 []). \<exists>tail.
              blocks ! k = Fetch (batch_url (make_batches [''a''] 0 [] ! k)) # tail
              \<and> fetched tail = []
              \<and> (1 < length (make_batches [''a''] 0 [])
                    \<and> succeeded (nth_response (pending (sample_world second_fails)) k)
                  \<longrightarrow> tail = [Sleep 100])
              \<and> (length (make_batches [''a''] 0 []) \<le> 1 \<longrightarrow> (\<forall>ms. Sleep ms \<notin> set tail))"
      using getTokensByAddresses_pauses[where addresses="[''a'']" and w="sample_world second_fails"
          and chainFilter=None, OF refl]
      by blast
    have "length blocks = 1" using blocks(1) one by simp
    then obtain b0 where b: "blocks = [b0]" by (cases blocks) simp_all
    have "trace (snd (getTokensByAddresses (sample_world second_fails) [''a''] None)) =
        trace (sample_world second_fails) @
        concat (map (\<lambda>k. batch_trace (1 < length (make_batches [''a''] 0 []))
                             (make_batches [''a''] 0 [] ! k)
                             (nth_response (pending (sample_world second_fails)) k))
                    [0..<length (make_batches [''a''] 0 [])])"
      unfolding getTokensByAddresses_loop by (rule batch_loop_trace)
    then show ?thesis
      using blocks(2) b
      by (simp add: one batch_trace_eq one_pair_response_def ok_def sample_world_def
          second_fails_def nth_response_def)
  qed
  have several: "take 2 (trace (snd (getTokensByAddresses (sample_world second_fails) addresses_65 None)))
     = [Fetch (batch_url (replicate 30 ''a'')), Sleep 100]"
  proof -
    have n: "length (make_batches addresses_65 0 []) = 3"
      by (simp add: batches_length addresses_65_def)
    have "make_batches addresses_65 0 [] ! 0 = take 30 (drop (30 * 0) addresses_65)"
      by (rule batches_nth) (simp add: n)
    then have first: "make_batches addresses_65 0 [] ! 0 = replicate 30 ''a''"
      by (simp add: addresses_65_def)
    have s0: "succeeded (nth_response (pending (sample_world second_fails)) 0)"
      by (simp add: succeeded_def nth_response_def sample_world_def second_fails_def
          one_pair_response_def ok_def)
    obtain blocks where blocks: "length blocks = length (make_batches addresses_65 0 [])"
      "trace (snd (getTokensByAddresses (sample_world second_fails) addresses_65 None))
         = trace (sample_world second_fails) @ concat blocks"
      "\<forall>k<length (make_batches addresses_65 0 []). \<exists>tail.
              blocks ! k = Fetch (batch_url (make_batches addresses_65 0 [] ! k)) # tail
              \<and> fetched tail = []
              \<and> (1 < length (make_batches addresses_65 0 [])
                    \<and> succeeded (nth_response (pending (sample_world second_fails)) k)
                  \<longrightarrow> tail = [Sleep 100])
              \<and> (length (make_batches addresses_65 0 []) \<le> 1 \<longrightarrow> (\<forall>ms. Sleep ms \<notin> set tail))"
      using getTokensByAddresses_pauses[where addresses=addresses_65 and w="sample_world second_fails"
          and chainFilter=None, OF refl]
      by blast
    have "0 < length (make_batches addresses_65 0 [])" using n by simp
    with blocks(3) obtain tail where tail:
      "blocks ! 0 = Fetch (batch_url (make_batches addresses_65 0 [] ! 0)) # tail"
      "1 < length (make_batches addresses_65 0 [])
          \<and> succeeded (nth_response (pending (sample_world second_fails)) 0)
        \<longrightarrow> tail = [Sleep 100]"
      by blast
    have t: "tail = [Sleep 100]" using tail(2) n s0 by simp
    have "length blocks = 3" using blocks(1) n by simp
    then obtain b0 rest where b: "blocks = b0 # rest" by (cases blocks) simp_all
    then have "b0 = [Fetch (batch_url (replicate 30 ''a'')), Sleep 100]"
      using tail(1) t first by simp
    then show ?thesis using blocks(2) b by (simp add: sample_world_def)
  qed
  show ?thesis using single several by simp
qed

section \<open>batchGetMetrics: the keys of the result map\<close>

lemma metrics_step_outcome:
  "metrics_step upper parseFloat clock results w token =
     (case request_outcome upper parseFloat clock w token of
        (None, w1) \<Rightarrow> (results, w1)
      | (Some metrics, w1) \<Rightarrow> (AList.update (req_ticker token) metrics results, w1))"
  by (simp add: metrics_step_def request_outcome_def split: option.splits prod.splits)

lemma metrics_loop_snoc:
  "metrics_loop upper parseFloat clock results w (tokens @ [token]) =
     (case metrics_loop upper parseFloat clock results w tokens of
        (results1, w1) \<Rightarrow>
          (case metrics_step upper parseFloat clock results1 w1 token of
             (results2, w2) \<Rightarrow> (results2, emit (Sleep 250) w2)))"
  by (induction tokens arbitrary: results w) (simp_all split: prod.splits)

lemma metrics_step_keys:
  "fst ` set (fst (metrics_step upper parseFloat clock results w token))
     \<subseteq> insert (req_ticker token) (fst ` set results)"
  by (auto simp: metrics_step_outcome dom_update split: option.splits prod.splits)

lemma metrics_loop_keys:
  "fst ` set (fst (metrics_loop upper parseFloat clock results w tokens))
     \<subseteq> fst ` set results \<union> req_ticker ` set tokens"
proof (induction tokens arbitrary: results w)
  case Nil
  show ?case by simp
next
  case (Cons t ts)
  obtain results' w' where st: "metrics_step upper parseFloat clock results w t = (results', w')"
    by (cases "metrics_step upper parseFloat clock results w t")
  have "fst ` set results' \<subseteq> insert (req_ticker t) (fst ` set results)"
    using metrics_step_keys[of upper parseFloat clock results w t] st by simp
  then show ?case
    using Cons.IH[of results' "emit (Sleep 250) w'"] st by (simp add: subset_iff) blast
qed

text \<open>
  Claim C10. The keys of the map returned by \<^const>\<open>batchGetMetrics\<close> are tickers of the
  requests, as given. Processing one more request after a batch stores its outcome, when
  there is one, under the request's ticker, replacing whatever an earlier request with the
  same ticker had stored there, and leaves every other key as it was. On the path by
  contract and chain the value stored under the request's ticker is the projection of the
  pair found by address, whatever the symbol of that pair.
\<close>

theorem batchGetMetrics_keyed_by_ticker:
  assumes "batchGetMetrics upper parseFloat clock w tokens = (results, w1)"
    and "request_outcome upper parseFloat clock w1 token = (outcome, w2)"
  shows "dom (map_of results) \<subseteq> req_ticker ` set tokens
     \<and> batchGetMetrics upper parseFloat clock w (tokens @ [token]) =
          (case outcome of
             None \<Rightarrow> results
           | Some metrics \<Rightarrow> AList.update (req_ticker token) metrics results,
           emit (Sleep 250) w2)
     \<and> (\<forall>metrics. outcome = Some metrics \<longrightarrow>
           map_of (fst (batchGetMetrics upper parseFloat clock w (tokens @ [token]))) (req_ticker token)
             = Some metrics)
     \<and> (\<forall>k. k \<noteq> req_ticker token \<longrightarrow>
           map_of (fst (batchGetMetrics upper parseFloat clock w (tokens @ [token]))) k = map_of results k)
     \<and> (\<forall>contract chain pair w'.
           contract_and_chain token = Some (contract, chain)
             \<and> getTokenByAddress w1 chain contract = (Some pair, w')
           \<longrightarrow> map_of (fst (batchGetMetrics upper parseFloat clock w (tokens @ [token]))) (req_ticker token)
                 = Some (pairToMetrics upper parseFloat (clock (trace w')) pair))"
proof -
  have keys: "dom (map_of results) \<subseteq> req_ticker ` set tokens"
    using metrics_loop_keys[of upper parseFloat clock "[]" w tokens] assms(1)
    by (simp add: batchGetMetrics_def dom_map_of_conv_image_fst)
  have run: "batchGetMetrics upper parseFloat clock w (tokens @ [token]) =
          (case outcome of
             None \<Rightarrow> results
           | Some metrics \<Rightarrow> AList.update (req_ticker token) metrics results,
           emit (Sleep 250) w2)"
    using assms
    by (simp add: batchGetMetrics_def metrics_loop_snoc metrics_step_outcome split: option.splits)
  have stored: "map_of (fst (batchGetMetrics upper parseFloat clock w (tokens @ [token]))) (req_ticker token)
             = Some metrics" if "outcome = Some metrics" for metrics
    using that by (simp add: run update_conv')
  have others: "map_of (fst (batchGetMetrics upper parseFloat clock w (tokens @ [token]))) k = map_of results k"
    if "k \<noteq> req_ticker token" for k
    using that by (cases outcome) (simp_all add: run update_conv')
  have by_address: "map_of (fst (batchGetMetrics upper parseFloat clock w (tokens @ [token]))) (req_ticker token)
                 = Some (pairToMetrics upper parseFloat (clock (trace w')) pair)"
    if "contract_and_chain token = Some (contract, chain)"
      "getTokenByAddress w1 chain contract = (Some pair, w')" for contract chain pair w'
  proof -
    have "outcome = Some (pairToMetrics upper parseFloat (clock (trace w')) pair)"
      using assms(2) that by (auto simp: request_outcome_def)
    then show ?thesis by (rule stored)
  qed
  show ?thesis using keys run stored others by_address by blast
qed


text \<open>
  Two requests under the ticker BONK; the second finds by address a pair whose symbol is
  WIF. Its projection replaces the first result under the key BONK.
\<close>

theorem batchGetMetrics_keyed_by_ticker_witness:
  "map_of (fst (batchGetMetrics toUpperCase unparsed sample_clock (sample_world bonk_then_wif) two_bonk_requests))
       ''BONK''
     = Some (pairToMetrics toUpperCase unparsed 3 (sample_pair ''solana'' ''a9'' ''WIF'' (Some 4)))
   \<and> tm_ticker (pairToMetrics toUpperCase unparsed 3 (sample_pair ''solana'' ''a9'' ''WIF'' (Some 4))) = ''WIF''"
proof -
  let ?first = "\<lparr>req_ticker = ''BONK'', req_chain = Some ''solana'', req_contract = None\<rparr>"
  let ?second = "\<lparr>req_ticker = ''BONK'', req_chain = Some ''SOL'', req_contract = Some ''a9''\<rparr>"
  let ?w = "sample_world bonk_then_wif"
  obtain results w1 where one: "batchGetMetrics toUpperCase unparsed sample_clock ?w [?first] = (results, w1)"
    by (cases "batchGetMetrics toUpperCase unparsed sample_clock ?w [?first]")
  obtain outcome w2 where two: "request_outcome toUpperCase unparsed sample_clock w1 ?second = (outcome, w2)"
    by (cases "request_outcome toUpperCase unparsed sample_clock w1 ?second")
  have w1: "pending w1 = [Response 200 (Data (Some [sample_pair ''solana'' ''a9'' ''WIF'' (Some 4)]))]"
      "trace w1 = [Fetch (DEXSCREENER_BASE @ ''/dex/search?q=BONK%20solana''), Sleep 250]"
    using one
    by (auto simp: batchGetMetrics_def metrics_step_def contract_and_chain_def getTokenMetrics_def
        searchToken_def fetch_def emit_def sample_world_def bonk_then_wif_def ok_def pairs_of_def
        reduceBest_def higherLiquidity_same truthy_str_def Let_def
        encodeURIComponent_def encode_char_def uri_unreserved_def hex_digit_def
        lower_letters_def upper_letters_def toUpperCase_def sample_pair_def)
  have cc: "contract_and_chain ?second = Some (''a9'', ''SOL'')"
    by (simp add: contract_and_chain_def truthy_str_def)
  obtain w' where by_address:
    "getTokenByAddress w1 ''SOL'' ''a9'' = (Some (sample_pair ''solana'' ''a9'' ''WIF'' (Some 4)), w')"
    "trace w' = trace w1 @ [Fetch (DEXSCREENER_BASE @ ''/dex/tokens/a9'')]"
    using w1
    by (simp add: getTokenByAddress_def fetch_def emit_def ok_def pairs_of_def reduceBest_def
        higherLiquidity_same Let_def truthy_str_def normalizeChain_def CHAIN_MAP_def toUpperCase_def
        upper_char_def lower_letters_def upper_letters_def sample_pair_def)
  have clock: "sample_clock (trace w') = 3"
    by (simp add: sample_clock_def by_address(2) w1(2))
  have split: "two_bonk_requests = [?first] @ [?second]" by (simp add: two_bonk_requests_def)
  have "map_of (fst (batchGetMetrics toUpperCase unparsed sample_clock ?w ([?first] @ [?second])))
          (req_ticker ?second)
      = Some (pairToMetrics toUpperCase unparsed (sample_clock (trace w'))
               (sample_pair ''solana'' ''a9'' ''WIF'' (Some 4)))"
    using batchGetMetrics_keyed_by_ticker[OF one two] cc by_address(1) by blast
  then have stored: "map_of (fst (batchGetMetrics toUpperCase unparsed sample_clock ?w two_bonk_requests)) ''BONK''
      = Some (pairToMetrics toUpperCase unparsed 3 (sample_pair ''solana'' ''a9'' ''WIF'' (Some 4)))"
    unfolding split clock by simp
  have "tm_ticker (pairToMetrics toUpperCase unparsed 3 (sample_pair ''solana'' ''a9'' ''WIF'' (Some 4))) = ''WIF''"
    by (simp add: pairToMetrics_def sample_pair_def)
  then show ?thesis using stored by simp
qed

end
